theory Spec2Isabelle
  imports
    Main
    "HOL-Library.Char_ord"
    "HOL-Library.List_Lexorder"
    "HOL-Library.Product_Lexorder"
begin

section \<open>Python values\<close>

text \<open>
  The configuration files are Python modules, so the fields of a rule hold dynamically
  typed values. The universe modelled here is \<open>None\<close>, \<open>bool\<close>, \<open>int\<close> and \<open>str\<close>;
  a \<open>str\<close> is a list of characters, one \<open>char\<close> per code point (code points below 256).
\<close>

datatype pyval = PNone | PBool bool | PInt int | PStr string

text \<open>Exceptions derived from Python's \<open>Exception\<close>, the ones \<open>except Exception\<close> catches.\<close>

datatype pyexn =
  TypeError | ValueError | KeyError | OverflowError | ReError | UserError string

text \<open>How a run ends early: \<open>sys.exit(n)\<close>, or an exception nobody catches.\<close>

datatype abort = Exit nat | Uncaught pyexn

text \<open>Truth value of an object, as \<open>if x:\<close> and \<open>elif x:\<close> test it.\<close>

fun truthy :: "pyval \<Rightarrow> bool" where
  "truthy PNone = False"
| "truthy (PBool b) = b"
| "truthy (PInt i) = (i \<noteq> 0)"
| "truthy (PStr s) = (s \<noteq> [])"

text \<open>Decimal digits of a natural number, as \<open>str\<close> and f-strings print an \<open>int\<close>.\<close>

fun str_of_nat :: "nat \<Rightarrow> string" where
  "str_of_nat n =
     (if n < 10 then [''0123456789'' ! n]
      else str_of_nat (n div 10) @ [''0123456789'' ! (n mod 10)])"

declare str_of_nat.simps [simp del]

definition str_of_int :: "int \<Rightarrow> string" where
  "str_of_int i = (if i < 0 then CHR ''-'' # str_of_nat (nat (- i)) else str_of_nat (nat i))"

text \<open>\<open>str(x)\<close>.\<close>

fun py_str :: "pyval \<Rightarrow> string" where
  "py_str PNone = ''None''"
| "py_str (PBool b) = (if b then ''True'' else ''False'')"
| "py_str (PInt i) = str_of_int i"
| "py_str (PStr s) = s"

text \<open>
  \<open>str.strip()\<close> removes leading and trailing whitespace: the code points for which
  \<open>str.isspace\<close> holds (below 256: 9 to 13, 28 to 32, 133 and 160).
\<close>

definition is_space :: "char \<Rightarrow> bool" where
  "is_space c = ((of_char c :: nat) \<in> {9, 10, 11, 12, 13, 28, 29, 30, 31, 32, 133, 160})"

definition strip :: "string \<Rightarrow> string" where
  "strip s = rev (dropWhile is_space (rev (dropWhile is_space s)))"

definition is_digit :: "char \<Rightarrow> bool" where
  "is_digit c = (let n = (of_char c :: nat) in 48 \<le> n \<and> n \<le> 57)"

definition digit_val :: "char \<Rightarrow> int" where
  "digit_val c = int (of_char c) - 48"

text \<open>
  \<open>int(s)\<close> on a string, base 10. The whitespace \<open>int\<close> ignores around the number is not
  that of \<open>str.strip\<close>: it is the ASCII whitespace (9 to 13 and 32) and the Unicode
  spaces beyond ASCII (133 and 160 below 256); the separators 28 to 31 are not ignored.
  One sign is allowed, and the digits may be grouped by single underscores. The
  interpreter refuses a number of more digits than its limit \<open>max_str_digits\<close> (4300 by
  default since Python 3.11; 0 is no limit). Anything else raises \<open>ValueError\<close>.
\<close>

definition is_int_space :: "char \<Rightarrow> bool" where
  "is_int_space c = ((of_char c :: nat) \<in> {9, 10, 11, 12, 13, 32, 133, 160})"

definition strip_int :: "string \<Rightarrow> string" where
  "strip_int s = rev (dropWhile is_int_space (rev (dropWhile is_int_space s)))"

definition valid_int_body :: "string \<Rightarrow> bool" where
  "valid_int_body s =
     (s \<noteq> [] \<and> is_digit (hd s) \<and> is_digit (last s)
      \<and> list_all (\<lambda>c. is_digit c \<or> c = CHR ''_'') s
      \<and> \<not> list_ex (\<lambda>(a, b). a = CHR ''_'' \<and> b = CHR ''_'') (zip s (tl s)))"

definition int_of_digits :: "string \<Rightarrow> int" where
  "int_of_digits s = foldl (\<lambda>a c. 10 * a + digit_val c) 0 (filter is_digit s)"

definition py_int_str :: "nat \<Rightarrow> string \<Rightarrow> pyexn + int" where
  "py_int_str max_str_digits s =
     (let t = strip_int s;
          neg = (t \<noteq> [] \<and> hd t = CHR ''-'');
          body = (if t \<noteq> [] \<and> (hd t = CHR ''-'' \<or> hd t = CHR ''+'') then tl t else t)
      in if \<not> valid_int_body body then Inl ValueError
         else if 0 < max_str_digits \<and> max_str_digits < length (filter is_digit body)
         then Inl ValueError
         else Inr (if neg then - int_of_digits body else int_of_digits body))"

text \<open>\<open>int(x)\<close>, under the interpreter's digit limit.\<close>

fun py_int :: "nat \<Rightarrow> pyval \<Rightarrow> pyexn + int" where
  "py_int max_str_digits PNone = Inl TypeError"
| "py_int max_str_digits (PBool b) = Inr (if b then 1 else 0)"
| "py_int max_str_digits (PInt i) = Inr i"
| "py_int max_str_digits (PStr s) = py_int_str max_str_digits s"

section \<open>The pattern-search adapter: \<open>run_rg_json\<close>\<close>

text \<open>One match as \<open>run_rg_json\<close> returns it.\<close>

record rgmatch =
  line_number :: nat
  line_text :: string
  submatches :: "(string \<times> nat \<times> nat) list"

text \<open>
  One line of the standard output of \<open>rg --json\<close>, by what the parsing loop does with it:
  an empty line, a line \<open>json.loads\<close> rejects, a JSON object whose type is not
  \<open>match\<close>, a match event with its line number, text and submatches, and a JSON value
  whose shape makes the field accesses raise (\<open>KeyError\<close>, \<open>TypeError\<close>,
  \<open>AttributeError\<close>).
\<close>

datatype rg_line =
    Blank
  | NotJson
  | NonMatch
  | MatchEvent nat string "(string \<times> nat \<times> nat) list"
  | BadShape

text \<open>
  What \<open>subprocess.run\<close> does: it raises \<open>FileNotFoundError\<close> (no executable), raises
  another exception, or completes with an exit status and the lines of standard output.
\<close>

datatype proc_outcome =
    FileNotFound
  | OtherFailure pyexn
  | Completed int "rg_line list"

text \<open>
  The loop over the output lines. \<open>None\<close> is an exception other than
  \<open>JSONDecodeError\<close> leaving the loop.
\<close>

fun parse_rg_lines :: "rg_line list \<Rightarrow> rgmatch list \<Rightarrow> rgmatch list option" where
  "parse_rg_lines [] matches = Some matches"
| "parse_rg_lines (Blank # ls) matches = parse_rg_lines ls matches"
| "parse_rg_lines (NotJson # ls) matches = parse_rg_lines ls matches"
| "parse_rg_lines (NonMatch # ls) matches = parse_rg_lines ls matches"
| "parse_rg_lines (MatchEvent n t sm # ls) matches =
     parse_rg_lines ls
       (matches @ [\<lparr>line_number = n, line_text = strip t, submatches = sm\<rparr>])"
| "parse_rg_lines (BadShape # ls) matches = None"

fun run_rg_json :: "proc_outcome \<Rightarrow> abort + rgmatch list" where
  "run_rg_json FileNotFound = Inl (Exit 1)"
| "run_rg_json (OtherFailure e) = Inr []"
| "run_rg_json (Completed returncode out) =
     (case parse_rg_lines out [] of None \<Rightarrow> Inr [] | Some matches \<Rightarrow> Inr matches)"

section \<open>The rule resolver\<close>

text \<open>
  What lies outside the program: the search tool's outcome for each pattern on the log
  file, the timestamp parser (it reads the clock's year and the local time zone), the
  regular-expression engine (\<open>re.search\<close>, which returns group 0 of the first match,
  no match, or raises on a bad pattern), the Unicode table that says which code points
  beyond ASCII are word characters for \<open>\w\<close>, and the interpreter's limit on the digits
  of a string \<open>int\<close> converts.
\<close>

record world =
  rg :: "string \<Rightarrow> proc_outcome"
  parse_logcat_timestamp :: "string \<Rightarrow> int"
  re_search :: "string \<Rightarrow> string \<Rightarrow> pyexn + string option"
  unicode_word :: "char \<Rightarrow> bool"
  int_max_str_digits :: nat

text \<open>A configuration field: a static value, or a callable of the line and the match.\<close>

datatype 'a cfgval = Static 'a | Callable "string \<Rightarrow> rgmatch \<Rightarrow> pyexn + 'a"

fun resolve_callable :: "'a cfgval \<Rightarrow> string \<Rightarrow> rgmatch \<Rightarrow> 'a \<Rightarrow> 'a" where
  "resolve_callable (Callable f) line m dflt =
     (case f line m of Inr v \<Rightarrow> v | Inl e \<Rightarrow> dflt)"
| "resolve_callable (Static v) line m dflt = v"

definition is_ascii_alnum :: "char \<Rightarrow> bool" where
  "is_ascii_alnum c =
     (let n = (of_char c :: nat)
      in (48 \<le> n \<and> n \<le> 57) \<or> (65 \<le> n \<and> n \<le> 90) \<or> (97 \<le> n \<and> n \<le> 122))"

text \<open>The class \<open>\w\<close> of a \<open>str\<close> pattern: alphanumeric or underscore.\<close>

definition re_word :: "world \<Rightarrow> char \<Rightarrow> bool" where
  "re_word w c =
     (if (of_char c :: nat) < 128 then is_ascii_alnum c \<or> c = CHR ''_'' else unicode_word w c)"

text \<open>The characters \<open>[^\w\-_.]\<close> does not match, which \<open>re.sub\<close> leaves alone.\<close>

definition cursor_char :: "world \<Rightarrow> char \<Rightarrow> bool" where
  "cursor_char w c = (re_word w c \<or> c = CHR ''-'' \<or> c = CHR ''_'' \<or> c = CHR ''.'')"

definition extract_cursor :: "world \<Rightarrow> string \<Rightarrow> string \<Rightarrow> string \<Rightarrow> pyexn + string" where
  "extract_cursor w line cursor_pattern dflt =
     (if cursor_pattern \<noteq> [] then
        (case re_search w cursor_pattern line of
           Inl e \<Rightarrow> Inl e
         | Inr None \<Rightarrow> Inr dflt
         | Inr (Some g) \<Rightarrow>
             Inr (take 50 (map (\<lambda>c. if cursor_char w c then c else CHR ''_'') (strip g))))
      else Inr dflt)"

section \<open>The config evaluator: \<open>process_config\<close>\<close>

text \<open>
  A rule, a rule group and a config, with the fields \<open>process_config\<close> reads. A key the
  dictionary lacks has the default of the \<open>get\<close> that reads it: \<open>''''\<close> for \<open>pattern\<close>,
  \<open>cursor_pattern\<close> and \<open>cursor_prefix\<close>, \<open>None\<close> for \<open>cursor\<close>, 1 for \<open>layer\<close>.
\<close>

record rule =
  pattern :: string
  cursor_cfg :: "pyval cfgval"
  cursor_pattern :: string
  cursor_prefix :: string
  layer_cfg :: "pyval cfgval"

record sub_config =
  subclassname_cfg :: "string cfgval"
  rules :: "rule list"

record point =
  cursor :: string
  msg :: string
  line :: nat
  timestamp :: int
  layer :: int

record subclass_data =
  subclassname :: string
  points :: "point list"

record class_data =
  classname :: string
  subclasses :: "subclass_data list"

text \<open>The result document \<open>merge_results\<close> builds: a name and the classes.\<close>

record document =
  result_name :: string
  result_all :: "class_data list"

text \<open>
  A \<open>process_json\<close> hook receives the result document as a mutable object. It returns a
  document, or it raises; when it raises, what it has already changed in the object it
  was given stays changed, so the outcome carries the content of that object at the time
  of the raise (the document it was given, when the hook changes nothing in place).
\<close>

datatype hook_outcome = Returns document | Raises pyexn document

type_synonym hook = "document \<Rightarrow> hook_outcome"

text \<open>
  The dictionary \<open>load_config\<close> returns: the module's \<open>classname\<close> (default
  \<open>Unnamed\<close>), its \<open>subclasses\<close> (default empty) and its \<open>process_json\<close>, if any.
\<close>

record config =
  config_classname :: string
  subclasses_config :: "sub_config list"
  process_json :: "hook option"

text \<open>The block that resolves the cursor of one match.\<close>

definition resolve_cursor :: "world \<Rightarrow> rule \<Rightarrow> string \<Rightarrow> rgmatch \<Rightarrow> nat \<Rightarrow> pyexn + pyval" where
  "resolve_cursor w r text m line_num =
     (case cursor_cfg r of
        Callable f \<Rightarrow>
          Inr (resolve_callable (cursor_cfg r) text m (PStr (''L'' @ str_of_nat line_num)))
      | Static v \<Rightarrow>
          if truthy v then Inr v
          else if cursor_pattern r \<noteq> [] then
            (case extract_cursor w text (cursor_pattern r) [] of
               Inl e \<Rightarrow> Inl e
             | Inr extracted \<Rightarrow>
                 Inr (PStr (if extracted \<noteq> [] then cursor_prefix r @ extracted
                            else ''L'' @ str_of_nat line_num)))
          else Inr (PStr (''L'' @ str_of_nat line_num)))"

text \<open>
  The body of the innermost loop for a line not seen before: the subclass name of the
  bucket and the point appended to it. \<open>str(cursor)\<close> cannot fail on the values modelled;
  \<open>int(layer)\<close> can, and nothing catches it.
\<close>

definition make_point ::
  "world \<Rightarrow> string cfgval \<Rightarrow> rule \<Rightarrow> rgmatch \<Rightarrow> abort + (string \<times> point)" where
  "make_point w sn_cfg r m =
     (let line_num = line_number m;
          text = line_text m;
          ts = parse_logcat_timestamp w text;
          name = resolve_callable sn_cfg text m ''Unnamed''
      in case resolve_cursor w r text m line_num of
           Inl e \<Rightarrow> Inl (Uncaught e)
         | Inr c \<Rightarrow>
             (case py_int (int_max_str_digits w)
                     (resolve_callable (layer_cfg r) text m (PInt 1)) of
                Inl e \<Rightarrow> Inl (Uncaught e)
              | Inr l \<Rightarrow>
                  Inr (name, \<lparr>cursor = py_str c, msg = text, line = line_num,
                              timestamp = ts, layer = l\<rparr>)))"

text \<open>
  The state of the loops: the \<open>defaultdict\<close> of buckets in insertion order, and the set
  of claimed line numbers.
\<close>

record pc_state =
  subclass_points_map :: "(string \<times> point list) list"
  seen_lines :: "nat set"

fun dict_append :: "('k \<times> 'v list) list \<Rightarrow> 'k \<Rightarrow> 'v \<Rightarrow> ('k \<times> 'v list) list" where
  "dict_append [] k p = [(k, [p])]"
| "dict_append ((k', ps) # d) k p =
     (if k' = k then (k', ps @ [p]) # d else (k', ps) # dict_append d k p)"

fun process_matches ::
  "world \<Rightarrow> string cfgval \<Rightarrow> rule \<Rightarrow> rgmatch list \<Rightarrow> pc_state \<Rightarrow> abort + pc_state" where
  "process_matches w sn_cfg r [] st = Inr st"
| "process_matches w sn_cfg r (m # ms) st =
     (if line_number m \<in> seen_lines st then process_matches w sn_cfg r ms st
      else
        (case make_point w sn_cfg r m of
           Inl a \<Rightarrow> Inl a
         | Inr (name, p) \<Rightarrow>
             process_matches w sn_cfg r ms
               \<lparr>subclass_points_map = dict_append (subclass_points_map st) name p,
                seen_lines = insert (line_number m) (seen_lines st)\<rparr>))"

fun process_rules ::
  "world \<Rightarrow> string cfgval \<Rightarrow> rule list \<Rightarrow> pc_state \<Rightarrow> abort + pc_state" where
  "process_rules w sn_cfg [] st = Inr st"
| "process_rules w sn_cfg (r # rs) st =
     (if pattern r = [] then process_rules w sn_cfg rs st
      else
        (case run_rg_json (rg w (pattern r)) of
           Inl a \<Rightarrow> Inl a
         | Inr matches \<Rightarrow>
             (case process_matches w sn_cfg r matches st of
                Inl a \<Rightarrow> Inl a
              | Inr st' \<Rightarrow> process_rules w sn_cfg rs st')))"

fun process_groups :: "world \<Rightarrow> sub_config list \<Rightarrow> pc_state \<Rightarrow> abort + pc_state" where
  "process_groups w [] st = Inr st"
| "process_groups w (g # gs) st =
     (case process_rules w (subclassname_cfg g) (rules g) st of
        Inl a \<Rightarrow> Inl a
      | Inr st' \<Rightarrow> process_groups w gs st')"

text \<open>The last loop: every bucket sorted by line, the empty ones left out.\<close>

fun build_subclasses :: "(string \<times> point list) list \<Rightarrow> subclass_data list" where
  "build_subclasses [] = []"
| "build_subclasses ((name, ps) # d) =
     (let sorted_points = sort_key line ps
      in if sorted_points \<noteq> []
         then \<lparr>subclassname = name, points = sorted_points\<rparr> # build_subclasses d
         else build_subclasses d)"

definition process_config :: "world \<Rightarrow> config \<Rightarrow> abort + class_data" where
  "process_config w cfg =
     (case process_groups w (subclasses_config cfg)
             \<lparr>subclass_points_map = [], seen_lines = {}\<rparr> of
        Inl a \<Rightarrow> Inl a
      | Inr st \<Rightarrow>
          Inr \<lparr>classname = config_classname cfg,
               subclasses = build_subclasses (subclass_points_map st)\<rparr>)"

section \<open>The order in which matches are processed\<close>

text \<open>
  A step of a config evaluation: a match, with the rule that found it and the subclass
  name field of the rule's group.
\<close>

type_synonym step = "string cfgval \<times> rule \<times> rgmatch"

text \<open>
  The matches the loop over one rule goes through: none for a rule without a pattern,
  else what \<open>run_rg_json\<close> returns for the rule's pattern.
\<close>

definition rule_matches :: "world \<Rightarrow> rule \<Rightarrow> rgmatch list" where
  "rule_matches w r =
     (if pattern r = [] then []
      else case run_rg_json (rg w (pattern r)) of Inl a \<Rightarrow> [] | Inr matches \<Rightarrow> matches)"

text \<open>
  The steps of a group, of a list of groups and of a config, in the order the three
  nested loops of \<open>process_config\<close> reach them: groups as declared, then rules as
  declared, then matches as the search returned them.
\<close>

definition group_steps :: "world \<Rightarrow> string cfgval \<Rightarrow> rule list \<Rightarrow> step list" where
  "group_steps w sn_cfg rs = concat (map (\<lambda>r. map (\<lambda>m. (sn_cfg, r, m)) (rule_matches w r)) rs)"

definition trace_of_groups :: "world \<Rightarrow> sub_config list \<Rightarrow> step list" where
  "trace_of_groups w gs = concat (map (\<lambda>g. group_steps w (subclassname_cfg g) (rules g)) gs)"

definition trace :: "world \<Rightarrow> config \<Rightarrow> step list" where
  "trace w cfg = trace_of_groups w (subclasses_config cfg)"

text \<open>The line a step is about, and the first step of a trace that is about a line.\<close>

definition step_line :: "step \<Rightarrow> nat" where
  "step_line s = line_number (snd (snd s))"

definition first_match :: "step list \<Rightarrow> nat \<Rightarrow> step option" where
  "first_match tr n = find (\<lambda>s. step_line s = n) tr"

text \<open>All points of a class, subclass after subclass.\<close>

definition class_points :: "class_data \<Rightarrow> point list" where
  "class_points cls = concat (map points (subclasses cls))"

text \<open>
  The loop body applied along a list of steps: the three loops of \<open>process_config\<close>
  flattened into one, for the proofs.
\<close>

fun run_trace :: "world \<Rightarrow> step list \<Rightarrow> pc_state \<Rightarrow> abort + pc_state" where
  "run_trace w [] st = Inr st"
| "run_trace w ((sn_cfg, r, m) # ts) st =
     (if line_number m \<in> seen_lines st then run_trace w ts st
      else
        (case make_point w sn_cfg r m of
           Inl a \<Rightarrow> Inl a
         | Inr (name, p) \<Rightarrow>
             run_trace w ts
               \<lparr>subclass_points_map = dict_append (subclass_points_map st) name p,
                seen_lines = insert (line_number m) (seen_lines st)\<rparr>))"

text \<open>
  What the buckets hold: the pairs of a subclass name and a point, and the points. The
  invariant of the loops: no two points of the buckets share a line, and the lines of
  the points are the lines seen.
\<close>

definition entries :: "(string \<times> point list) list \<Rightarrow> (string \<times> point) set" where
  "entries d = {(k, p). \<exists>ps. (k, ps) \<in> set d \<and> p \<in> set ps}"

definition bucket_points :: "(string \<times> point list) list \<Rightarrow> point list" where
  "bucket_points d = concat (map snd d)"

definition pc_inv :: "pc_state \<Rightarrow> bool" where
  "pc_inv st =
     (distinct (map line (bucket_points (subclass_points_map st)))
      \<and> line ` set (bucket_points (subclass_points_map st)) = seen_lines st)"

text \<open>
  The character class and the length bound the specification gives for a cursor,
  \<open>^[A-Za-z0-9_.-]{0,50}$\<close>.
\<close>

definition spec_cursor_char :: "char \<Rightarrow> bool" where
  "spec_cursor_char c = (is_ascii_alnum c \<or> c = CHR ''_'' \<or> c = CHR ''.'' \<or> c = CHR ''-'')"

definition spec_cursor_ok :: "string \<Rightarrow> bool" where
  "spec_cursor_ok s = (length s \<le> 50 \<and> list_all spec_cursor_char s)"

section \<open>The run: \<open>load_config\<close>, \<open>merge_results\<close> and \<open>main\<close>\<close>

text \<open>
  What the file system holds for one config path: whether the path exists, whether its
  suffix is \<open>.py\<close>, and what executing the module gives (an exception, or the config).
\<close>

record config_source =
  src_path :: string
  src_exists :: bool
  src_is_py :: bool
  src_module :: "pyexn + config"

definition load_config :: "config_source \<Rightarrow> abort + config" where
  "load_config s =
     (if \<not> src_exists s then Inl (Exit 1)
      else if \<not> src_is_py s then Inl (Exit 1)
      else (case src_module s of Inl e \<Rightarrow> Inl (Exit 1) | Inr cfg \<Rightarrow> Inr cfg))"

text \<open>
  A config argument of the command line: a plain path, or a pattern with \<open>*\<close> or \<open>?\<close>
  together with the sorted paths \<open>glob\<close> finds for it.
\<close>

datatype cfg_arg = Plain config_source | Wildcard string "config_source list"

text \<open>The warnings a run prints and goes on after.\<close>

datatype warning = NoMatchingConfigFiles string | ProcessJsonFailed string pyexn

fun expand_config_patterns ::
  "cfg_arg list \<Rightarrow> config_source list \<times> warning list" where
  "expand_config_patterns [] = ([], [])"
| "expand_config_patterns (Plain s # args) =
     (let (expanded, warns) = expand_config_patterns args in (s # expanded, warns))"
| "expand_config_patterns (Wildcard pat found # args) =
     (let (expanded, warns) = expand_config_patterns args
      in if found \<noteq> [] then (found @ expanded, warns)
         else (expanded, NoMatchingConfigFiles pat # warns))"

definition merge_results :: "class_data list \<Rightarrow> string \<Rightarrow> document" where
  "merge_results configs_data name = \<lparr>result_name = name, result_all = configs_data\<rparr>"

text \<open>
  The loop over the config files: each is loaded and evaluated; a class with subclasses
  is appended to \<open>all_data\<close>, a \<open>process_json\<close> hook to the callbacks, with its file.
\<close>

fun process_configs ::
  "world \<Rightarrow> config_source list \<Rightarrow> class_data list \<times> (string \<times> hook) list \<Rightarrow>
     abort + class_data list \<times> (string \<times> hook) list" where
  "process_configs w [] acc = Inr acc"
| "process_configs w (s # ss) (all_data, callbacks) =
     (case load_config s of
        Inl a \<Rightarrow> Inl a
      | Inr cfg \<Rightarrow>
          (case process_config w cfg of
             Inl a \<Rightarrow> Inl a
           | Inr cls \<Rightarrow>
               process_configs w ss
                 (if subclasses cls \<noteq> [] then all_data @ [cls] else all_data,
                  case process_json cfg of
                    Some process_fn \<Rightarrow> callbacks @ [(src_path s, process_fn)]
                  | None \<Rightarrow> callbacks)))"

text \<open>
  The loop over the callbacks. A hook that returns rebinds \<open>result\<close>; a hook that raises
  leaves \<open>result\<close> bound to the object it was given, as that object now is, and a warning
  is printed.
\<close>

fun run_callbacks ::
  "(string \<times> hook) list \<Rightarrow> document \<Rightarrow> warning list \<Rightarrow> document \<times> warning list" where
  "run_callbacks [] result log = (result, log)"
| "run_callbacks ((config_file, process_fn) # cbs) result log =
     (case process_fn result of
        Returns r \<Rightarrow> run_callbacks cbs r log
      | Raises e changed \<Rightarrow>
          run_callbacks cbs changed (log @ [ProcessJsonFailed config_file e]))"

text \<open>
  The parsed command line: whether the log file exists, the config arguments, and the
  name of the result (the \<open>-n\<close> argument, or \<open>Log Analysis -\<close> and the log file's name).
\<close>

record run_input =
  log_exists :: bool
  config_args :: "cfg_arg list"
  title :: string

text \<open>What a finished run leaves: the document written, and the warnings printed.\<close>

record run_output =
  written :: document
  warnings :: "warning list"

definition main :: "world \<Rightarrow> run_input \<Rightarrow> abort + run_output" where
  "main w inp =
     (if \<not> log_exists inp then Inl (Exit 1)
      else if config_args inp = [] then Inl (Exit 1)
      else
        (let (config_files, warns) = expand_config_patterns (config_args inp)
         in if config_files = [] then Inl (Exit 1)
            else
              (case process_configs w config_files ([], []) of
                 Inl a \<Rightarrow> Inl a
               | Inr (all_data, callbacks) \<Rightarrow>
                   (let (result, log) =
                          run_callbacks callbacks (merge_results all_data (title inp)) warns
                    in Inr \<lparr>written = result, warnings = log\<rparr>))))"

text \<open>
  The match events of the output of a search, in order, as \<open>run_rg_json\<close> records them.
\<close>

fun match_events :: "rg_line list \<Rightarrow> rgmatch list" where
  "match_events [] = []"
| "match_events (MatchEvent n t sm # ls) =
     \<lparr>line_number = n, line_text = strip t, submatches = sm\<rparr> # match_events ls"
| "match_events (l # ls) = match_events ls"

text \<open>
  What a run that evaluates all its config files hands to the callback loop: the hooks of
  the configs that have one, each with its file, in the order of the files; and the
  classes of the configs that gave a subclass, in the same order.
\<close>

definition source_hooks :: "config_source list \<Rightarrow> (string \<times> hook) list" where
  "source_hooks ss =
     concat (map (\<lambda>s. case load_config s of
                         Inl a \<Rightarrow> []
                       | Inr cfg \<Rightarrow>
                           (case process_json cfg of
                              None \<Rightarrow> []
                            | Some process_fn \<Rightarrow> [(src_path s, process_fn)])) ss)"

definition source_classes :: "world \<Rightarrow> config_source list \<Rightarrow> class_data list" where
  "source_classes w ss =
     concat (map (\<lambda>s. case load_config s of
                         Inl a \<Rightarrow> []
                       | Inr cfg \<Rightarrow>
                           (case process_config w cfg of
                              Inl a \<Rightarrow> []
                            | Inr cls \<Rightarrow> if subclasses cls \<noteq> [] then [cls] else [])) ss)"

section \<open>The timeline layout: \<open>generate_html\<close>\<close>























section \<open>Concrete inputs\<close>

text \<open>
  A log on which the patterns \<open>A\<close> and \<open>B\<close> both match line 5; \<open>A\<close> also matches line 7
  and \<open>B\<close> line 2. Every other pattern finds nothing (exit status 1 of the tool). The
  output of a search has its match events between a begin event and an end and a summary
  event; a search that finds nothing prints the summary alone.
\<close>

definition ex_world :: world where
  "ex_world =
     \<lparr>rg = (\<lambda>pat.
         if pat = ''A''
         then Completed 0
                [NonMatch, MatchEvent 5 ''x A B'' [], MatchEvent 7 ''A only'' [], NonMatch,
                 NonMatch]
         else if pat = ''B''
         then Completed 0
                [NonMatch, MatchEvent 2 ''B first'' [], MatchEvent 5 ''x A B'' [], NonMatch,
                 NonMatch]
         else Completed 1 [NonMatch]),
      parse_logcat_timestamp = (\<lambda>t. 0),
      re_search = (\<lambda>p t. Inr None),
      unicode_word = (\<lambda>c. False),
      int_max_str_digits = 4300\<rparr>"

definition lit_rule :: "string \<Rightarrow> pyval \<Rightarrow> pyval \<Rightarrow> rule" where
  "lit_rule pat c l =
     \<lparr>pattern = pat, cursor_cfg = Static c, cursor_pattern = [], cursor_prefix = [],
      layer_cfg = Static l\<rparr>"

definition ex_two_rules :: config where
  "ex_two_rules =
     \<lparr>config_classname = ''T'',
      subclasses_config =
        [\<lparr>subclassname_cfg = Static ''G'',
       rules = [lit_rule ''A'' (PStr ''CA'') (PInt 1), lit_rule ''B'' (PStr ''CB'') (PInt 2)]\<rparr>],
      process_json = None\<rparr>"

definition ex_two_rules_class :: class_data where
  "ex_two_rules_class =
     \<lparr>classname = ''T'',
      subclasses =
        [\<lparr>subclassname = ''G'',
          points =
            [\<lparr>cursor = ''CB'', msg = ''B first'', line = 2, timestamp = 0, layer = 2\<rparr>,
             \<lparr>cursor = ''CA'', msg = ''x A B'', line = 5, timestamp = 0, layer = 1\<rparr>,
             \<lparr>cursor = ''CA'', msg = ''A only'', line = 7, timestamp = 0, layer = 1\<rparr>]\<rparr>]\<rparr>"

definition match5 :: rgmatch where
  "match5 = \<lparr>line_number = 5, line_text = ''x A B'', submatches = []\<rparr>"

text \<open>A literal cursor with a space in it.\<close>

definition ex_literal_space :: config where
  "ex_literal_space =
     \<lparr>config_classname = ''T'',
      subclasses_config =
        [\<lparr>subclassname_cfg = Static ''G'',
       rules = [lit_rule ''A'' (PStr ''disk full'') (PInt 1)]\<rparr>],
      process_json = None\<rparr>"

definition ex_literal_space_class :: class_data where
  "ex_literal_space_class =
     \<lparr>classname = ''T'',
      subclasses =
        [\<lparr>subclassname = ''G'',
          points =
            [\<lparr>cursor = ''disk full'', msg = ''x A B'', line = 5, timestamp = 0, layer = 1\<rparr>,
             \<lparr>cursor = ''disk full'', msg = ''A only'', line = 7, timestamp = 0, layer = 1\<rparr>]\<rparr>]\<rparr>"

text \<open>
  A log in which line 3 reads \<open>x A req#42 B\<close> and line 4 reads \<open>no request id\<close>; the
  pattern \<open>req\<close> matches both. The cursor pattern \<open>req#[0-9]+\<close> followed by a space finds
  \<open>req#42\<close> with its trailing space in line 3 and nothing in line 4.
\<close>

definition ex_world_req :: world where
  "ex_world_req =
     \<lparr>rg = (\<lambda>pat.
         if pat = ''req''
         then Completed 0
                [NonMatch, MatchEvent 3 ''x A req#42 B'' [], MatchEvent 4 ''no request id'' [],
                 NonMatch, NonMatch]
         else Completed 1 [NonMatch]),
      parse_logcat_timestamp = (\<lambda>t. 0),
      re_search = (\<lambda>p t.
         if p = ''req#[0-9]+ '' \<and> t = ''x A req#42 B'' then Inr (Some ''req#42 '')
         else Inr None),
      unicode_word = (\<lambda>c. False),
      int_max_str_digits = 4300\<rparr>"

definition match3 :: rgmatch where
  "match3 = \<lparr>line_number = 3, line_text = ''x A req#42 B'', submatches = []\<rparr>"

text \<open>A rule with no cursor, a cursor pattern and a prefix.\<close>

definition pattern_rule :: rule where
  "pattern_rule =
     \<lparr>pattern = ''req'', cursor_cfg = Static PNone, cursor_pattern = ''req#[0-9]+ '',
      cursor_prefix = ''P_'', layer_cfg = Static (PInt 1)\<rparr>"

definition ex_pattern_rule :: config where
  "ex_pattern_rule =
     \<lparr>config_classname = ''T'',
      subclasses_config =
        [\<lparr>subclassname_cfg = Static ''G'', rules = [pattern_rule]\<rparr>],
      process_json = None\<rparr>"

definition ex_pattern_rule_class :: class_data where
  "ex_pattern_rule_class =
     \<lparr>classname = ''T'',
      subclasses =
        [\<lparr>subclassname = ''G'',
          points =
            [\<lparr>cursor = ''P_req_42'', msg = ''x A req#42 B'', line = 3, timestamp = 0,
              layer = 1\<rparr>,
             \<lparr>cursor = ''L4'', msg = ''no request id'', line = 4, timestamp = 0,
              layer = 1\<rparr>]\<rparr>]\<rparr>"

text \<open>A rule whose cursor is the empty string, with no cursor pattern.\<close>

definition ex_empty_cursor :: config where
  "ex_empty_cursor =
     \<lparr>config_classname = ''T'',
      subclasses_config =
        [\<lparr>subclassname_cfg = Static ''G'', rules = [lit_rule ''A'' (PStr []) (PInt 1)]\<rparr>],
      process_json = None\<rparr>"

definition ex_empty_cursor_class :: class_data where
  "ex_empty_cursor_class =
     \<lparr>classname = ''T'',
      subclasses =
        [\<lparr>subclassname = ''G'',
          points =
            [\<lparr>cursor = ''L5'', msg = ''x A B'', line = 5, timestamp = 0, layer = 1\<rparr>,
             \<lparr>cursor = ''L7'', msg = ''A only'', line = 7, timestamp = 0, layer = 1\<rparr>]\<rparr>]\<rparr>"

text \<open>A layer resolver that raises, and one that returns a string that is no number.\<close>

definition raising_layer_rule :: rule where
  "raising_layer_rule =
     \<lparr>pattern = ''A'', cursor_cfg = Static (PStr ''CA''), cursor_pattern = [],
      cursor_prefix = [], layer_cfg = Callable (\<lambda>t m. Inl (UserError ''boom''))\<rparr>"

definition ex_raising_layer :: config where
  "ex_raising_layer =
     \<lparr>config_classname = ''T'',
      subclasses_config =
        [\<lparr>subclassname_cfg = Static ''G'', rules = [raising_layer_rule]\<rparr>],
      process_json = None\<rparr>"

definition ex_raising_layer_class :: class_data where
  "ex_raising_layer_class =
     \<lparr>classname = ''T'',
      subclasses =
        [\<lparr>subclassname = ''G'',
          points =
            [\<lparr>cursor = ''CA'', msg = ''x A B'', line = 5, timestamp = 0, layer = 1\<rparr>,
             \<lparr>cursor = ''CA'', msg = ''A only'', line = 7, timestamp = 0, layer = 1\<rparr>]\<rparr>]\<rparr>"

definition word_layer_rule :: rule where
  "word_layer_rule =
     \<lparr>pattern = ''A'', cursor_cfg = Static (PStr ''CA''), cursor_pattern = [],
      cursor_prefix = [], layer_cfg = Callable (\<lambda>t m. Inr (PStr ''high''))\<rparr>"

text \<open>
  A layer that is the digit 5 after the separator U+001C, which \<open>str.strip\<close> removes and
  \<open>int\<close> does not accept.
\<close>

definition separator_layer_rule :: rule where
  "separator_layer_rule =
     \<lparr>pattern = ''A'', cursor_cfg = Static (PStr ''CA''), cursor_pattern = [],
      cursor_prefix = [], layer_cfg = Static (PStr [CHR 0x1C, CHR ''5''])\<rparr>"

definition ex_separator_layer :: config where
  "ex_separator_layer =
     \<lparr>config_classname = ''T'',
      subclasses_config =
        [\<lparr>subclassname_cfg = Static ''G'', rules = [separator_layer_rule]\<rparr>],
      process_json = None\<rparr>"

definition ex_word_layer :: config where
  "ex_word_layer =
     \<lparr>config_classname = ''T'',
      subclasses_config =
        [\<lparr>subclassname_cfg = Static ''G'', rules = [word_layer_rule]\<rparr>],
      process_json = None\<rparr>"

text \<open>Config files: one that is there and loads, one that is missing.\<close>

definition good_source :: config_source where
  "good_source =
     \<lparr>src_path = ''good.py'', src_exists = True, src_is_py = True,
      src_module = Inr ex_two_rules\<rparr>"

definition missing_source :: config_source where
  "missing_source =
     \<lparr>src_path = ''missing.py'', src_exists = False, src_is_py = True,
      src_module = Inl KeyError\<rparr>"

definition ex_run_good :: run_input where
  "ex_run_good = \<lparr>log_exists = True, config_args = [Plain good_source], title = ''run''\<rparr>"

definition ex_run_missing :: run_input where
  "ex_run_missing =
     \<lparr>log_exists = True, config_args = [Plain missing_source, Plain good_source],
      title = ''run''\<rparr>"

text \<open>
  A search tool that ends every call with exit status 2 (an error of the tool) and no
  output, and one that is not installed.
\<close>

definition ex_world_rg_error :: world where
  "ex_world_rg_error = ex_world\<lparr>rg := (\<lambda>pat. Completed 2 [])\<rparr>"

definition ex_world_no_rg :: world where
  "ex_world_no_rg = ex_world\<lparr>rg := (\<lambda>pat. FileNotFound)\<rparr>"

text \<open>
  A hook that empties the list of classes of the document it is given and then raises,
  and a document for it to work on.
\<close>

definition clear_then_raise :: hook where
  "clear_then_raise d = Raises KeyError (d\<lparr>result_all := []\<rparr>)"

definition raise_at_once :: hook where
  "raise_at_once d = Raises KeyError d"

definition rename_result :: hook where
  "rename_result d = Returns (d\<lparr>result_name := ''renamed''\<rparr>)"

definition ex_document :: document where
  "ex_document = \<lparr>result_name = ''run'', result_all = [ex_two_rules_class]\<rparr>"

text \<open>
  Three config files with a hook each: the first renames the result, the second empties
  the list of classes and then raises, the third gives the result its final name.
\<close>

definition retitle_result :: hook where
  "retitle_result d = Returns (d\<lparr>result_name := ''final''\<rparr>)"

definition hook_source :: "string \<Rightarrow> hook \<Rightarrow> config_source" where
  "hook_source path h =
     \<lparr>src_path = path, src_exists = True, src_is_py = True,
      src_module = Inr (ex_two_rules\<lparr>process_json := Some h\<rparr>)\<rparr>"

definition ex_run_hooks :: run_input where
  "ex_run_hooks =
     \<lparr>log_exists = True,
      config_args = [Plain (hook_source ''a.py'' rename_result),
                     Plain (hook_source ''b.py'' clear_then_raise),
                     Plain (hook_source ''c.py'' retitle_result)],
      title = ''run''\<rparr>"

section \<open>The loops of the config evaluator follow the trace\<close>

lemma process_matches_run_trace:
  "process_matches w sn_cfg r ms st = run_trace w (map (\<lambda>m. (sn_cfg, r, m)) ms) st"
  by (induction ms arbitrary: st) (auto split: sum.splits)

lemma run_trace_append:
  "run_trace w (xs @ ys) st =
     (case run_trace w xs st of Inl a \<Rightarrow> Inl a | Inr st' \<Rightarrow> run_trace w ys st')"
  by (induction w xs st rule: run_trace.induct) (auto split: sum.splits)

lemma process_rules_run_trace:
  "process_rules w sn_cfg rs st = Inr st' \<Longrightarrow> run_trace w (group_steps w sn_cfg rs) st = Inr st'"
proof (induction rs arbitrary: st)
  case Nil
  then show ?case by (simp add: group_steps_def)
next
  case (Cons r rs)
  show ?case
  proof (cases "pattern r = []")
    case True
    with Cons show ?thesis by (simp add: group_steps_def rule_matches_def)
  next
    case False
    with Cons.prems obtain ms st1 where
      ms: "run_rg_json (rg w (pattern r)) = Inr ms" and
      st1: "process_matches w sn_cfg r ms st = Inr st1" and
      rest: "process_rules w sn_cfg rs st1 = Inr st'"
      by (auto split: sum.splits)
    from ms False have rm: "rule_matches w r = ms" by (simp add: rule_matches_def)
    have "group_steps w sn_cfg (r # rs) = map (\<lambda>m. (sn_cfg, r, m)) ms @ group_steps w sn_cfg rs"
      by (simp add: group_steps_def rm)
    with st1 Cons.IH [OF rest] show ?thesis
      by (simp add: run_trace_append process_matches_run_trace)
  qed
qed

lemma process_groups_run_trace:
  "process_groups w gs st = Inr st' \<Longrightarrow> run_trace w (trace_of_groups w gs) st = Inr st'"
proof (induction gs arbitrary: st)
  case Nil
  then show ?case by (simp add: trace_of_groups_def)
next
  case (Cons g gs)
  from Cons.prems obtain st1 where
    st1: "process_rules w (subclassname_cfg g) (rules g) st = Inr st1" and
    rest: "process_groups w gs st1 = Inr st'"
    by (auto split: sum.splits)
  have "trace_of_groups w (g # gs) = group_steps w (subclassname_cfg g) (rules g) @ trace_of_groups w gs"
    by (simp add: trace_of_groups_def)
  with process_rules_run_trace [OF st1] Cons.IH [OF rest] show ?case
    by (simp add: run_trace_append)
qed

subsection \<open>What the loops keep true\<close>

lemma entries_dict_append: "entries (dict_append d k p) = insert (k, p) (entries d)"
  by (induction d k p rule: dict_append.induct) (auto simp: entries_def)

lemma make_point_line: "make_point w sn_cfg r m = Inr (name, p) \<Longrightarrow> line p = line_number m"
  by (auto simp: make_point_def Let_def split: sum.splits)

lemma first_match_Cons:
  "first_match ((sn, r, m) # ts) n =
     (if line_number m = n then Some (sn, r, m) else first_match ts n)"
  by (simp add: first_match_def step_line_def)

lemma run_trace_first:
  assumes "run_trace w tr st = Inr st'" and "(k, p) \<in> entries (subclass_points_map st')"
  shows "(k, p) \<in> entries (subclass_points_map st) \<or>
         (line p \<notin> seen_lines st \<and>
          (\<exists>sn r m. first_match tr (line p) = Some (sn, r, m) \<and> make_point w sn r m = Inr (k, p)))"
  using assms
proof (induction w tr st rule: run_trace.induct)
  case (1 w st)
  then show ?case by simp
next
  case (2 w sn_cfg r m ts st)
  let ?new = "\<lambda>ts. line p \<notin> seen_lines st \<and>
          (\<exists>sn r m. first_match ts (line p) = Some (sn, r, m) \<and> make_point w sn r m = Inr (k, p))"
  show ?case
  proof (cases "line_number m \<in> seen_lines st")
    case True
    with 2 have "(k, p) \<in> entries (subclass_points_map st) \<or> ?new ts"
      by simp
    moreover have "?new (( sn_cfg, r, m) # ts)" if "?new ts"
    proof -
      from that True have "line_number m \<noteq> line p" by auto
      with that show ?thesis by (simp add: first_match_Cons)
    qed
    ultimately show ?thesis by blast
  next
    case False
    with "2.prems" obtain name q where
      mp: "make_point w sn_cfg r m = Inr (name, q)" and
      rest: "run_trace w ts \<lparr>subclass_points_map = dict_append (subclass_points_map st) name q,
                seen_lines = insert (line_number m) (seen_lines st)\<rparr> = Inr st'"
      by (auto split: sum.splits)
    from "2.IH"(2) [OF False mp refl rest "2.prems"(2)]
    consider (old) "(k, p) \<in> entries (subclass_points_map st)"
      | (new) "(k, p) = (name, q)"
      | (later) "line p \<notin> insert (line_number m) (seen_lines st)"
          "\<exists>sn r m. first_match ts (line p) = Some (sn, r, m) \<and> make_point w sn r m = Inr (k, p)"
      by (auto simp: entries_dict_append)
    then show ?thesis
    proof cases
      case old
      then show ?thesis by simp
    next
      case new
      with make_point_line [OF mp] have l: "line p = line_number m" by simp
      with False have "line p \<notin> seen_lines st" by simp
      moreover have "first_match ((sn_cfg, r, m) # ts) (line p) = Some (sn_cfg, r, m)"
        by (simp add: first_match_Cons l)
      moreover from mp new have "make_point w sn_cfg r m = Inr (k, p)" by simp
      ultimately show ?thesis by blast
    next
      case later
      then have "line_number m \<noteq> line p" "line p \<notin> seen_lines st" by auto
      with later(2) show ?thesis by (simp add: first_match_Cons)
    qed
  qed
qed

lemma bucket_points_Nil: "bucket_points [] = []"
  by (simp add: bucket_points_def)

lemma bucket_points_Cons: "bucket_points ((k, ps) # d) = ps @ bucket_points d"
  by (simp add: bucket_points_def)

lemma set_bucket_points_dict_append:
  "set (bucket_points (dict_append d k p)) = insert p (set (bucket_points d))"
  by (induction d k p rule: dict_append.induct)
     (simp_all add: bucket_points_Nil bucket_points_Cons)

lemma distinct_bucket_points_dict_append:
  "distinct (map line (bucket_points (dict_append d k p))) =
     (line p \<notin> line ` set (bucket_points d) \<and> distinct (map line (bucket_points d)))"
proof (induction d k p rule: dict_append.induct)
  case (1 k p)
  show ?case by (simp add: bucket_points_Nil bucket_points_Cons)
next
  case (2 k' ps d k p)
  show ?case
  proof (cases "k' = k")
    case True
    then show ?thesis
      by (auto simp: bucket_points_Cons)
  next
    case False
    with 2 show ?thesis
      by (auto simp: bucket_points_Cons set_bucket_points_dict_append)
  qed
qed

lemma sort_key_Nil_iff: "(sort_key f xs = []) = (xs = [])"
proof
  assume "sort_key f xs = []"
  then have "set (sort_key f xs) = {}" by simp
  then show "xs = []" by simp
qed simp

lemma run_trace_inv:
  "run_trace w tr st = Inr st' \<Longrightarrow> pc_inv st \<Longrightarrow>
     pc_inv st' \<and> seen_lines st' = seen_lines st \<union> step_line ` set tr"
proof (induction w tr st rule: run_trace.induct)
  case (1 w st)
  then show ?case by simp
next
  case (2 w sn_cfg r m ts st)
  show ?case
  proof (cases "line_number m \<in> seen_lines st")
    case True
    with 2 show ?thesis by (auto simp: step_line_def)
  next
    case False
    with "2.prems" obtain name q where
      mp: "make_point w sn_cfg r m = Inr (name, q)" and
      rest: "run_trace w ts \<lparr>subclass_points_map = dict_append (subclass_points_map st) name q,
                seen_lines = insert (line_number m) (seen_lines st)\<rparr> = Inr st'"
      by (auto split: sum.splits)
    have lq: "line q = line_number m" by (rule make_point_line [OF mp])
    from "2.prems"(2) False lq
    have "pc_inv \<lparr>subclass_points_map = dict_append (subclass_points_map st) name q,
                seen_lines = insert (line_number m) (seen_lines st)\<rparr>"
      by (simp add: pc_inv_def set_bucket_points_dict_append distinct_bucket_points_dict_append)
    from "2.IH"(2) [OF False mp refl rest this] show ?thesis
      by (auto simp: step_line_def)
  qed
qed

subsection \<open>From the buckets to the emitted class\<close>

lemma set_points_build_subclasses:
  "set (concat (map points (build_subclasses d))) = set (bucket_points d)"
  by (induction d rule: build_subclasses.induct)
     (auto simp: bucket_points_Nil bucket_points_Cons Let_def sort_key_Nil_iff)

lemma Union_points_build_subclasses:
  "(\<Union>s\<in>set (build_subclasses d). set (points s)) = set (bucket_points d)"
  using set_points_build_subclasses [of d] by simp

lemma distinct_build_subclasses:
  "distinct (map line (bucket_points d)) \<Longrightarrow>
     distinct (map line (concat (map points (build_subclasses d))))"
proof (induction d rule: build_subclasses.induct)
  case 1
  then show ?case by simp
next
  case (2 name ps d)
  let ?rest = "concat (map points (build_subclasses d))"
  from "2.prems" have d1: "distinct (map line ps)"
    and d2: "distinct (map line (bucket_points d))"
    and d3: "line ` set ps \<inter> line ` set (bucket_points d) = {}"
    by (simp_all add: bucket_points_Cons)
  from d1 have s1: "distinct (map line (sort_key line ps))"
    by (simp add: distinct_map)
  have s2: "distinct (map line ?rest)"
    using "2.IH" d2 by (cases "sort_key line ps = []") (simp_all add: Let_def)
  have "distinct (map line (sort_key line ps @ ?rest))"
    using s1 s2 d3 by (simp add: Union_points_build_subclasses)
  then show ?case
    by (cases "sort_key line ps = []") (simp_all add: Let_def s2)
qed

lemma entries_Nil: "entries [] = {}"
  by (simp add: entries_def)

lemma entries_Cons: "entries ((k, ps) # d) = Pair k ` set ps \<union> entries d"
  by (auto simp: entries_def)

lemma entries_build_subclasses:
  "(\<exists>s\<in>set (build_subclasses d). subclassname s = k \<and> p \<in> set (points s)) = ((k, p) \<in> entries d)"
  by (induction d rule: build_subclasses.induct)
     (auto simp: entries_Nil entries_Cons Let_def sort_key_Nil_iff)

lemma sorted_build_subclasses:
  "s \<in> set (build_subclasses d) \<Longrightarrow> sorted (map line (points s))"
  by (induction d rule: build_subclasses.induct) (auto simp: Let_def split: if_splits)

lemma pc_inv_init: "pc_inv \<lparr>subclass_points_map = [], seen_lines = {}\<rparr>"
  by (simp add: pc_inv_def bucket_points_Nil)

lemma process_config_final:
  assumes "process_config w cfg = Inr cls"
  obtains st where
    "run_trace w (trace w cfg) \<lparr>subclass_points_map = [], seen_lines = {}\<rparr> = Inr st"
    "subclasses cls = build_subclasses (subclass_points_map st)"
proof -
  from assms obtain st where
    pg: "process_groups w (subclasses_config cfg)
           \<lparr>subclass_points_map = [], seen_lines = {}\<rparr> = Inr st" and
    cls: "cls = \<lparr>classname = config_classname cfg,
                 subclasses = build_subclasses (subclass_points_map st)\<rparr>"
    by (auto simp: process_config_def split: sum.splits)
  from process_groups_run_trace [OF pg] cls that show thesis by (simp add: trace_def)
qed

lemma process_config_first:
  assumes "process_config w cfg = Inr cls"
    and "sub \<in> set (subclasses cls)" and "p \<in> set (points sub)"
  shows "\<exists>sn r m. first_match (trace w cfg) (line p) = Some (sn, r, m)
           \<and> make_point w sn r m = Inr (subclassname sub, p)"
proof -
  from assms(1) obtain st where
    rt: "run_trace w (trace w cfg) \<lparr>subclass_points_map = [], seen_lines = {}\<rparr> = Inr st" and
    sc: "subclasses cls = build_subclasses (subclass_points_map st)"
    by (rule process_config_final)
  from assms(2,3) sc have "(subclassname sub, p) \<in> entries (subclass_points_map st)"
    using entries_build_subclasses [of "subclass_points_map st" "subclassname sub" p] by auto
  from run_trace_first [OF rt this] show ?thesis
    by (simp add: entries_Nil)
qed

lemma process_config_distinct:
  assumes "process_config w cfg = Inr cls"
  shows "distinct (map line (class_points cls))"
proof -
  from assms obtain st where
    rt: "run_trace w (trace w cfg) \<lparr>subclass_points_map = [], seen_lines = {}\<rparr> = Inr st" and
    sc: "subclasses cls = build_subclasses (subclass_points_map st)"
    by (rule process_config_final)
  from run_trace_inv [OF rt pc_inv_init] have "pc_inv st" by simp
  then show ?thesis
    by (simp add: class_points_def sc pc_inv_def distinct_build_subclasses)
qed

lemma process_config_lines:
  assumes "process_config w cfg = Inr cls"
  shows "line ` set (class_points cls) = step_line ` set (trace w cfg)"
proof -
  from assms obtain st where
    rt: "run_trace w (trace w cfg) \<lparr>subclass_points_map = [], seen_lines = {}\<rparr> = Inr st" and
    sc: "subclasses cls = build_subclasses (subclass_points_map st)"
    by (rule process_config_final)
  from run_trace_inv [OF rt pc_inv_init]
  have "pc_inv st" and "seen_lines st = step_line ` set (trace w cfg)" by simp_all
  then show ?thesis
    by (simp add: class_points_def sc pc_inv_def Union_points_build_subclasses)
qed

lemma process_config_sorted:
  assumes "process_config w cfg = Inr cls" and "sub \<in> set (subclasses cls)"
  shows "sorted (map line (points sub))"
proof -
  from assms(1) obtain st where
    rt: "run_trace w (trace w cfg) \<lparr>subclass_points_map = [], seen_lines = {}\<rparr> = Inr st" and
    sc: "subclasses cls = build_subclasses (subclass_points_map st)"
    by (rule process_config_final)
  with assms(2) show ?thesis by (simp add: sorted_build_subclasses)
qed

subsection \<open>Facts about one evaluated match\<close>

lemma first_match_line: "first_match tr n = Some (sn, r, m) \<Longrightarrow> line_number m = n"
proof -
  assume "first_match tr n = Some (sn, r, m)"
  then have "step_line (sn, r, m) = n"
    unfolding first_match_def by (rule find_Some_iff [THEN iffD1, THEN exE]) auto
  then show ?thesis by (simp add: step_line_def)
qed

lemma first_match_in_trace: "first_match tr n = Some s \<Longrightarrow> n \<in> step_line ` set tr"
  by (auto simp: first_match_def find_Some_iff)

lemma process_config_point_of_first:
  assumes "process_config w cfg = Inr cls"
    and "first_match (trace w cfg) n = Some (sn, r, m)"
  shows "\<exists>sub\<in>set (subclasses cls). \<exists>p\<in>set (points sub).
           line p = n \<and> make_point w sn r m = Inr (subclassname sub, p)"
proof -
  from first_match_in_trace [OF assms(2)] process_config_lines [OF assms(1)]
  have "n \<in> line ` set (class_points cls)" by simp
  then obtain sub p where
    sub: "sub \<in> set (subclasses cls)" and p: "p \<in> set (points sub)" and n: "line p = n"
    by (auto simp: class_points_def)
  from process_config_first [OF assms(1) sub p] assms(2) n
  have "make_point w sn r m = Inr (subclassname sub, p)" by auto
  with sub p n show ?thesis by blast
qed

lemma cursor_char_spec:
  "cursor_char w c \<Longrightarrow> spec_cursor_char c \<or> (128 \<le> (of_char c :: nat) \<and> unicode_word w c)"
  by (auto simp: cursor_char_def re_word_def spec_cursor_char_def split: if_splits)

lemma sanitized_chars:
  "length (take 50 (map (\<lambda>c. if cursor_char w c then c else CHR ''_'') s)) \<le> 50 \<and>
   list_all (\<lambda>c. spec_cursor_char c \<or> (128 \<le> (of_char c :: nat) \<and> unicode_word w c))
     (take 50 (map (\<lambda>c. if cursor_char w c then c else CHR ''_'') s))"
proof -
  let ?s = "map (\<lambda>c. if cursor_char w c then c else CHR ''_'') s"
  have "\<forall>c\<in>set ?s. spec_cursor_char c \<or> (128 \<le> (of_char c :: nat) \<and> unicode_word w c)"
    using cursor_char_spec [of w] by (auto simp: spec_cursor_char_def)
  then have "\<forall>c\<in>set (take 50 ?s).
               spec_cursor_char c \<or> (128 \<le> (of_char c :: nat) \<and> unicode_word w c)"
    by (meson in_set_takeD)
  then show ?thesis by (simp add: list_all_iff)
qed

lemma make_point_cursor:
  assumes "make_point w sn r m = Inr (k, p)"
  shows "case cursor_cfg r of
           Callable f \<Rightarrow>
             cursor p = py_str (case f (line_text m) m of
                                  Inr v \<Rightarrow> v
                                | Inl e \<Rightarrow> PStr (''L'' @ str_of_nat (line_number m)))
         | Static v \<Rightarrow>
             if truthy v then cursor p = py_str v
             else if cursor_pattern r = [] then cursor p = ''L'' @ str_of_nat (line_number m)
             else
               (case re_search w (cursor_pattern r) (line_text m) of
                  Inl e \<Rightarrow> False
                | Inr None \<Rightarrow> cursor p = ''L'' @ str_of_nat (line_number m)
                | Inr (Some g) \<Rightarrow>
                    (let e = take 50 (map (\<lambda>c. if cursor_char w c then c else CHR ''_'')
                                        (strip g))
                     in cursor p = (if e = [] then ''L'' @ str_of_nat (line_number m)
                                    else cursor_prefix r @ e)
                        \<and> length e \<le> 50
                        \<and> list_all (\<lambda>c. spec_cursor_char c \<or>
                                           (128 \<le> (of_char c :: nat) \<and> unicode_word w c)) e))"
proof (cases "cursor_cfg r")
  case (Callable f)
  with assms show ?thesis
    by (auto simp: make_point_def resolve_cursor_def Let_def split: sum.splits)
next
  case (Static v)
  show ?thesis
  proof (cases "truthy v")
    case True
    with assms Static show ?thesis
      by (auto simp: make_point_def resolve_cursor_def Let_def split: sum.splits)
  next
    case False
    show ?thesis
    proof (cases "cursor_pattern r = []")
      case True
      with assms Static False show ?thesis
        by (auto simp: make_point_def resolve_cursor_def Let_def split: sum.splits)
    next
      case nonempty: False
      from assms Static False nonempty obtain x where
        x: "extract_cursor w (line_text m) (cursor_pattern r) [] = Inr x" and
        c: "cursor p = (if x \<noteq> [] then cursor_prefix r @ x
                        else ''L'' @ str_of_nat (line_number m))"
        by (auto simp: make_point_def resolve_cursor_def Let_def split: sum.splits)
      show ?thesis
      proof (cases "re_search w (cursor_pattern r) (line_text m)")
        case (Inl e)
        with x nonempty show ?thesis by (simp add: extract_cursor_def)
      next
        case (Inr found)
        show ?thesis
        proof (cases found)
          case None
          with x Inr nonempty have "x = []" by (simp add: extract_cursor_def)
          with c Static False nonempty Inr None show ?thesis by simp
        next
          case (Some g)
          with x Inr nonempty have
            "x = take 50 (map (\<lambda>c. if cursor_char w c then c else CHR ''_'') (strip g))"
            by (simp add: extract_cursor_def)
          with c Static False nonempty Inr Some sanitized_chars [of w "strip g"]
          show ?thesis by (simp add: Let_def)
        qed
      qed
    qed
  qed
qed

lemma make_point_layer:
  "make_point w sn r m = Inr (k, p) \<Longrightarrow>
     py_int (int_max_str_digits w) (resolve_callable (layer_cfg r) (line_text m) m (PInt 1)) = Inr (layer p)"
  by (auto simp: make_point_def Let_def split: sum.splits)

lemma make_point_layer_fails:
  "py_int (int_max_str_digits w) (resolve_callable (layer_cfg r) (line_text m) m (PInt 1)) = Inl e \<Longrightarrow>
     \<exists>a. make_point w sn r m = Inl a"
  by (auto simp: make_point_def Let_def split: sum.splits)

lemma ex_two_rules_run:
  "process_config ex_world ex_two_rules = Inr ex_two_rules_class"
  by code_simp

lemma ex_two_rules_first:
  "first_match (trace ex_world ex_two_rules) 5 =
     Some (Static ''G'', lit_rule ''A'' (PStr ''CA'') (PInt 1), match5)"
  by (simp add: first_match_def trace_def trace_of_groups_def group_steps_def rule_matches_def step_line_def
      ex_world_def ex_two_rules_def lit_rule_def strip_def is_space_def match5_def)

section \<open>The claims about the config evaluator\<close>

text \<open>
  C2. Within one config evaluation no two emitted points share a line number, and the
  point of a line is the one the loop body builds from the first match of that line in
  processing order (groups, then rules, then matches, as declared): it carries that
  rule's cursor and layer and that group's subclass name. Every matched line has its
  point.
\<close>

theorem no_duplicate_lines_first_match_wins:
  assumes "process_config w cfg = Inr cls"
  shows "distinct (map line (class_points cls))
       \<and> (\<forall>sub\<in>set (subclasses cls). \<forall>p\<in>set (points sub).
            \<exists>sn r m. first_match (trace w cfg) (line p) = Some (sn, r, m)
                    \<and> make_point w sn r m = Inr (subclassname sub, p))
       \<and> (\<forall>n sn r m. first_match (trace w cfg) n = Some (sn, r, m) \<longrightarrow>
            (\<exists>sub\<in>set (subclasses cls). \<exists>p\<in>set (points sub).
               line p = n \<and> make_point w sn r m = Inr (subclassname sub, p)))"
  using process_config_distinct [OF assms] process_config_first [OF assms]
    process_config_point_of_first [OF assms]
  by blast

theorem no_duplicate_lines_first_match_wins_witness:
  "process_config ex_world ex_two_rules = Inr ex_two_rules_class
   \<and> distinct (map line (class_points ex_two_rules_class))
   \<and> first_match (trace ex_world ex_two_rules) 5 =
       Some (Static ''G'', lit_rule ''A'' (PStr ''CA'') (PInt 1), match5)
   \<and> (\<exists>sub\<in>set (subclasses ex_two_rules_class). \<exists>p\<in>set (points sub).
         line p = 5 \<and>
         make_point ex_world (Static ''G'') (lit_rule ''A'' (PStr ''CA'') (PInt 1)) match5 =
           Inr (subclassname sub, p))"
  using no_duplicate_lines_first_match_wins [OF ex_two_rules_run] ex_two_rules_run
    ex_two_rules_first
  by blast

text \<open>
  C8. In the class a config evaluation emits, the points of every subclass are in
  ascending order of line number, whatever their timestamps are.
\<close>

theorem subclass_points_sorted_by_line:
  assumes "process_config w cfg = Inr cls" and "sub \<in> set (subclasses cls)"
  shows "sorted (map line (points sub))"
  using assms by (rule process_config_sorted)

theorem subclass_points_sorted_by_line_witness:
  "process_config ex_world ex_two_rules = Inr ex_two_rules_class
   \<and> hd (subclasses ex_two_rules_class) \<in> set (subclasses ex_two_rules_class)
   \<and> sorted (map line (points (hd (subclasses ex_two_rules_class))))"
proof -
  have h: "hd (subclasses ex_two_rules_class) \<in> set (subclasses ex_two_rules_class)"
    by (simp add: ex_two_rules_class_def)
  from subclass_points_sorted_by_line [OF ex_two_rules_run h] ex_two_rules_run h
  show ?thesis by blast
qed

subsection \<open>The example configs, evaluated\<close>

lemma ex_literal_space_run:
  "process_config ex_world ex_literal_space = Inr ex_literal_space_class"
  by code_simp

lemma ex_pattern_rule_run:
  "process_config ex_world_req ex_pattern_rule = Inr ex_pattern_rule_class"
  by code_simp

lemma ex_pattern_rule_first:
  "first_match (trace ex_world_req ex_pattern_rule) 3 = Some (Static ''G'', pattern_rule, match3)"
  by (simp add: first_match_def trace_def trace_of_groups_def group_steps_def rule_matches_def
      step_line_def ex_world_req_def ex_pattern_rule_def pattern_rule_def strip_def is_space_def
      match3_def)

lemma ex_empty_cursor_run:
  "process_config ex_world ex_empty_cursor = Inr ex_empty_cursor_class"
  by code_simp

lemma ex_empty_cursor_first:
  "first_match (trace ex_world ex_empty_cursor) 5 =
     Some (Static ''G'', lit_rule ''A'' (PStr []) (PInt 1), match5)"
  by (simp add: first_match_def trace_def trace_of_groups_def group_steps_def rule_matches_def step_line_def
      ex_world_def ex_empty_cursor_def lit_rule_def strip_def is_space_def match5_def)

lemma ex_raising_layer_run:
  "process_config ex_world ex_raising_layer = Inr ex_raising_layer_class"
  by code_simp

lemma ex_raising_layer_first:
  "first_match (trace ex_world ex_raising_layer) 5 =
     Some (Static ''G'', raising_layer_rule, match5)"
  by (simp add: first_match_def trace_def trace_of_groups_def group_steps_def rule_matches_def step_line_def
      ex_world_def ex_raising_layer_def raising_layer_rule_def strip_def is_space_def match5_def)

lemma ex_word_layer_run:
  "process_config ex_world ex_word_layer = Inl (Uncaught ValueError)"
  by code_simp

lemma ex_separator_layer_first:
  "first_match (trace ex_world ex_separator_layer) 5 =
     Some (Static ''G'', separator_layer_rule, match5)"
  by (simp add: first_match_def trace_def trace_of_groups_def group_steps_def rule_matches_def
      step_line_def ex_world_def ex_separator_layer_def separator_layer_rule_def strip_def
      is_space_def match5_def)

lemma ex_word_layer_first:
  "first_match (trace ex_world ex_word_layer) 5 = Some (Static ''G'', word_layer_rule, match5)"
  by (simp add: first_match_def trace_def trace_of_groups_def group_steps_def rule_matches_def step_line_def
      ex_world_def ex_word_layer_def word_layer_rule_def strip_def is_space_def match5_def)

section \<open>The claims about cursors and layers\<close>

text \<open>
  C1, as the specification states it, fails: a literal cursor is emitted as it stands.
  The rule with the literal cursor \<open>disk full\<close> yields points whose cursor has a space.
\<close>

theorem literal_cursor_not_sanitized:
  "process_config ex_world ex_literal_space = Inr ex_literal_space_class
   \<and> cursor (hd (class_points ex_literal_space_class)) = ''disk full''
   \<and> \<not> spec_cursor_ok (cursor (hd (class_points ex_literal_space_class)))"
  using ex_literal_space_run
  by (simp add: ex_literal_space_class_def class_points_def spec_cursor_ok_def
      spec_cursor_char_def is_ascii_alnum_def)

text \<open>
  C1, amended. The point of a matched line takes its cursor from the first rule that
  matched the line, and only a cursor extracted by a cursor pattern is sanitized. A
  callable cursor gives \<open>str\<close> of what it returns, or \<open>L\<close> and the line number when it
  raises; a truthy literal cursor gives \<open>str\<close> of the literal; neither is sanitized. A
  falsy literal without a cursor pattern gives \<open>L\<close> and the line number. With a cursor
  pattern, the match of the pattern on the line is trimmed, every character outside
  \<open>[\w\-_.]\<close> is replaced by an underscore and the result is cut to 50 characters; the
  cursor is the cursor prefix followed by that text, or \<open>L\<close> and the line number when the
  pattern finds nothing or the text is empty. The sanitized text has at most 50
  characters, each in \<open>[A-Za-z0-9_.-]\<close> or a word character beyond ASCII.
\<close>

theorem cursor_sanitized_only_when_extracted:
  assumes "process_config w cfg = Inr cls"
    and "first_match (trace w cfg) n = Some (sn, r, m)"
  shows "\<exists>sub\<in>set (subclasses cls). \<exists>p\<in>set (points sub). line p = n \<and>
           (case cursor_cfg r of
              Callable f \<Rightarrow>
                cursor p = py_str (case f (line_text m) m of
                                     Inr v \<Rightarrow> v
                                   | Inl e \<Rightarrow> PStr (''L'' @ str_of_nat n))
            | Static v \<Rightarrow>
                if truthy v then cursor p = py_str v
                else if cursor_pattern r = [] then cursor p = ''L'' @ str_of_nat n
                else
                  (case re_search w (cursor_pattern r) (line_text m) of
                     Inl e \<Rightarrow> False
                   | Inr None \<Rightarrow> cursor p = ''L'' @ str_of_nat n
                   | Inr (Some g) \<Rightarrow>
                       (let e = take 50 (map (\<lambda>c. if cursor_char w c then c else CHR ''_'')
                                           (strip g))
                        in cursor p = (if e = [] then ''L'' @ str_of_nat n
                                       else cursor_prefix r @ e)
                           \<and> length e \<le> 50
                           \<and> list_all (\<lambda>c. spec_cursor_char c \<or>
                                (128 \<le> (of_char c :: nat) \<and> unicode_word w c)) e)))"
proof -
  from process_config_point_of_first [OF assms] obtain sub p where
    sub: "sub \<in> set (subclasses cls)" and p: "p \<in> set (points sub)" and
    n: "line p = n" and mp: "make_point w sn r m = Inr (subclassname sub, p)"
    by blast
  from first_match_line [OF assms(2)] have ln: "line_number m = n" .
  note c = make_point_cursor [OF mp, unfolded ln]
  show ?thesis
    by (rule bexI [OF _ sub], rule bexI [OF _ p], rule conjI [OF n c])
qed

theorem cursor_sanitized_only_when_extracted_witness:
  "process_config ex_world_req ex_pattern_rule = Inr ex_pattern_rule_class
   \<and> first_match (trace ex_world_req ex_pattern_rule) 3 =
       Some (Static ''G'', pattern_rule, match3)
   \<and> re_search ex_world_req (cursor_pattern pattern_rule) (line_text match3) =
       Inr (Some ''req#42 '')
   \<and> take 50 (map (\<lambda>c. if cursor_char ex_world_req c then c else CHR ''_'')
                (strip ''req#42 '')) = ''req_42''
   \<and> (\<exists>sub\<in>set (subclasses ex_pattern_rule_class). \<exists>p\<in>set (points sub).
         line p = 3 \<and> cursor p = ''P_req_42'')"
proof -
  have found: "re_search ex_world_req (cursor_pattern pattern_rule) (line_text match3) =
                 Inr (Some ''req#42 '')"
    by (simp add: ex_world_req_def pattern_rule_def match3_def)
  have clean: "take 50 (map (\<lambda>c. if cursor_char ex_world_req c then c else CHR ''_'')
                 (strip ''req#42 '')) = ''req_42''"
    by (simp add: strip_def is_space_def cursor_char_def re_word_def is_ascii_alnum_def
        ex_world_req_def)
  have c1: "cursor_cfg pattern_rule = Static PNone"
    and c2: "cursor_pattern pattern_rule \<noteq> []"
    and c3: "cursor_prefix pattern_rule = ''P_''"
    by (simp_all add: pattern_rule_def)
  from cursor_sanitized_only_when_extracted [OF ex_pattern_rule_run ex_pattern_rule_first]
  have "\<exists>sub\<in>set (subclasses ex_pattern_rule_class). \<exists>p\<in>set (points sub).
          line p = 3 \<and> cursor p = ''P_req_42''"
    by (simp add: c1 c2 c3 found clean Let_def) blast
  with ex_pattern_rule_run ex_pattern_rule_first found clean show ?thesis by blast
qed

text \<open>
  C10. A rule whose cursor is a literal that is falsy (the empty string, \<open>None\<close>, 0,
  \<open>False\<close>) and that has no cursor pattern gives the point of every line it is first to
  match the cursor \<open>L\<close> followed by the line number.
\<close>

theorem falsy_literal_cursor_is_line_label:
  assumes "process_config w cfg = Inr cls"
    and "first_match (trace w cfg) n = Some (sn, r, m)"
    and "cursor_cfg r = Static v" and "\<not> truthy v" and "cursor_pattern r = []"
  shows "\<exists>sub\<in>set (subclasses cls). \<exists>p\<in>set (points sub).
           line p = n \<and> cursor p = ''L'' @ str_of_nat n"
proof -
  from process_config_point_of_first [OF assms(1,2)] obtain sub p where
    sub: "sub \<in> set (subclasses cls)" and p: "p \<in> set (points sub)" and
    n: "line p = n" and mp: "make_point w sn r m = Inr (subclassname sub, p)"
    by blast
  from make_point_cursor [OF mp] first_match_line [OF assms(2)] assms(3,4,5)
  have "cursor p = ''L'' @ str_of_nat n" by simp
  with sub p n show ?thesis by blast
qed

theorem falsy_literal_cursor_is_line_label_witness:
  "process_config ex_world ex_empty_cursor = Inr ex_empty_cursor_class
   \<and> first_match (trace ex_world ex_empty_cursor) 5 =
       Some (Static ''G'', lit_rule ''A'' (PStr []) (PInt 1), match5)
   \<and> cursor_cfg (lit_rule ''A'' (PStr []) (PInt 1)) = Static (PStr [])
   \<and> \<not> truthy (PStr [])
   \<and> cursor_pattern (lit_rule ''A'' (PStr []) (PInt 1)) = []
   \<and> (\<exists>sub\<in>set (subclasses ex_empty_cursor_class). \<exists>p\<in>set (points sub).
         line p = 5 \<and> cursor p = ''L'' @ str_of_nat 5)"
proof -
  have c: "cursor_cfg (lit_rule ''A'' (PStr []) (PInt 1)) = Static (PStr [])"
    and t: "\<not> truthy (PStr [])"
    and cp: "cursor_pattern (lit_rule ''A'' (PStr []) (PInt 1)) = []"
    by (simp_all add: lit_rule_def)
  from falsy_literal_cursor_is_line_label
         [OF ex_empty_cursor_run ex_empty_cursor_first c t cp]
    ex_empty_cursor_run ex_empty_cursor_first c t cp
  show ?thesis by blast
qed

text \<open>
  C5, as the specification states it, fails: a layer resolver that returns the string
  \<open>high\<close> makes \<open>int\<close> raise \<open>ValueError\<close>, which leaves \<open>process_config\<close> uncaught; no
  point with layer 1 is emitted.
\<close>

theorem uncoercible_layer_propagates:
  "first_match (trace ex_world ex_word_layer) 5 = Some (Static ''G'', word_layer_rule, match5)
   \<and> resolve_callable (layer_cfg word_layer_rule) (line_text match5) match5 (PInt 1) =
       PStr ''high''
   \<and> process_config ex_world ex_word_layer = Inl (Uncaught ValueError)"
  using ex_word_layer_first ex_word_layer_run
  by (simp add: word_layer_rule_def)

text \<open>
  C5, amended. The layer of the point of a matched line is \<open>int\<close> of what the first
  matching rule's layer resolves to, and a layer resolver that raises resolves to the
  default 1. A resolved value that \<open>int\<close> rejects is not replaced by 1: the error leaves
  the config evaluation, which emits no class.
\<close>

theorem layer_default_only_when_resolver_raises:
  assumes "first_match (trace w cfg) n = Some (sn, r, m)"
  shows "(case py_int (int_max_str_digits w) (resolve_callable (layer_cfg r) (line_text m) m (PInt 1)) of
            Inl e \<Rightarrow> (\<exists>a. process_config w cfg = Inl a)
          | Inr l \<Rightarrow>
              (\<forall>cls. process_config w cfg = Inr cls \<longrightarrow>
                 (\<exists>sub\<in>set (subclasses cls). \<exists>p\<in>set (points sub). line p = n \<and> layer p = l)))
       \<and> (\<forall>f e. layer_cfg r = Callable f \<and> f (line_text m) m = Inl e \<longrightarrow>
            py_int (int_max_str_digits w) (resolve_callable (layer_cfg r) (line_text m) m (PInt 1)) = Inr 1)"
proof (intro conjI)
  show "case py_int (int_max_str_digits w) (resolve_callable (layer_cfg r) (line_text m) m (PInt 1)) of
            Inl e \<Rightarrow> (\<exists>a. process_config w cfg = Inl a)
          | Inr l \<Rightarrow>
              (\<forall>cls. process_config w cfg = Inr cls \<longrightarrow>
                 (\<exists>sub\<in>set (subclasses cls). \<exists>p\<in>set (points sub). line p = n \<and> layer p = l))"
  proof (cases "py_int (int_max_str_digits w) (resolve_callable (layer_cfg r) (line_text m) m (PInt 1))")
    case (Inl e)
    from make_point_layer_fails [OF Inl] obtain a where a: "make_point w sn r m = Inl a"
      by blast
    have "\<exists>b. process_config w cfg = Inl b"
    proof (cases "process_config w cfg")
      case (Inr cls)
      from process_config_point_of_first [OF Inr assms] a show ?thesis by auto
    qed simp
    with Inl show ?thesis by simp
  next
    case (Inr l)
    have "\<exists>sub\<in>set (subclasses cls). \<exists>p\<in>set (points sub). line p = n \<and> layer p = l"
      if run: "process_config w cfg = Inr cls" for cls
    proof -
      from process_config_point_of_first [OF run assms] obtain sub p where
        sub: "sub \<in> set (subclasses cls)" and p: "p \<in> set (points sub)" and
        n: "line p = n" and mp: "make_point w sn r m = Inr (subclassname sub, p)"
        by blast
      from make_point_layer [OF mp] Inr have "layer p = l" by simp
      with sub p n show ?thesis by blast
    qed
    with Inr show ?thesis by simp
  qed
next
  show "\<forall>f e. layer_cfg r = Callable f \<and> f (line_text m) m = Inl e \<longrightarrow>
            py_int (int_max_str_digits w) (resolve_callable (layer_cfg r) (line_text m) m (PInt 1)) = Inr 1"
    by auto
qed

theorem layer_default_only_when_resolver_raises_witness:
  "first_match (trace ex_world ex_raising_layer) 5 = Some (Static ''G'', raising_layer_rule, match5)
   \<and> process_config ex_world ex_raising_layer = Inr ex_raising_layer_class
   \<and> py_int (int_max_str_digits ex_world)
        (resolve_callable (layer_cfg raising_layer_rule) (line_text match5) match5 (PInt 1))
       = Inr 1
   \<and> (\<exists>sub\<in>set (subclasses ex_raising_layer_class). \<exists>p\<in>set (points sub).
         line p = 5 \<and> layer p = 1)
   \<and> first_match (trace ex_world ex_separator_layer) 5 =
       Some (Static ''G'', separator_layer_rule, match5)
   \<and> py_int (int_max_str_digits ex_world)
        (resolve_callable (layer_cfg separator_layer_rule) (line_text match5) match5 (PInt 1))
       = Inl ValueError
   \<and> (\<exists>a. process_config ex_world ex_separator_layer = Inl a)"
proof -
  have r1: "py_int (int_max_str_digits ex_world)
              (resolve_callable (layer_cfg raising_layer_rule) (line_text match5) match5
                (PInt 1)) = Inr 1"
    by (simp add: raising_layer_rule_def)
  have r2: "py_int (int_max_str_digits ex_world)
              (resolve_callable (layer_cfg separator_layer_rule) (line_text match5) match5
                (PInt 1)) = Inl ValueError"
    by code_simp
  from layer_default_only_when_resolver_raises [OF ex_raising_layer_first] r1
    ex_raising_layer_run
  have a: "\<exists>sub\<in>set (subclasses ex_raising_layer_class). \<exists>p\<in>set (points sub).
             line p = 5 \<and> layer p = 1"
    by simp
  from layer_default_only_when_resolver_raises [OF ex_separator_layer_first] r2
  have b: "\<exists>a. process_config ex_world ex_separator_layer = Inl a"
    by simp
  from a b r1 r2 ex_raising_layer_first ex_raising_layer_run ex_separator_layer_first
  show ?thesis by blast
qed

section \<open>The claims about a whole run\<close>

lemma run_rg_json_not_found_iff:
  "(\<exists>a. run_rg_json out = Inl a) = (out = FileNotFound)"
  by (cases out) (auto split: option.splits)

lemma process_rules_rg_found:
  "process_rules w sn_cfg rs st = Inr st' \<Longrightarrow> r \<in> set rs \<Longrightarrow> pattern r \<noteq> [] \<Longrightarrow>
     rg w (pattern r) \<noteq> FileNotFound"
proof (induction rs arbitrary: st)
  case Nil
  then show ?case by simp
next
  case (Cons r' rs)
  show ?case
  proof (cases "pattern r' = []")
    case True
    with Cons show ?thesis by auto
  next
    case False
    with Cons.prems(1) obtain ms st1 where
      ms: "run_rg_json (rg w (pattern r')) = Inr ms" and
      rest: "process_rules w sn_cfg rs st1 = Inr st'"
      by (auto split: sum.splits)
    from ms have here: "rg w (pattern r') \<noteq> FileNotFound" by auto
    from Cons.prems(2) have "r = r' \<or> r \<in> set rs" by simp
    then show ?thesis
    proof
      assume "r = r'"
      with here show ?thesis by simp
    next
      assume "r \<in> set rs"
      from Cons.IH [OF rest this Cons.prems(3)] show ?thesis .
    qed
  qed
qed

lemma process_groups_rg_found:
  "process_groups w gs st = Inr st' \<Longrightarrow> g \<in> set gs \<Longrightarrow> r \<in> set (rules g) \<Longrightarrow>
     pattern r \<noteq> [] \<Longrightarrow> rg w (pattern r) \<noteq> FileNotFound"
proof (induction gs arbitrary: st)
  case Nil
  then show ?case by simp
next
  case (Cons g' gs)
  from Cons.prems(1) obtain st1 where
    first: "process_rules w (subclassname_cfg g') (rules g') st = Inr st1" and
    rest: "process_groups w gs st1 = Inr st'"
    by (auto split: sum.splits)
  from Cons.prems(2) have "g = g' \<or> g \<in> set gs" by simp
  then show ?case
  proof
    assume "g = g'"
    with first Cons.prems(3,4) show ?thesis by (auto dest: process_rules_rg_found)
  next
    assume "g \<in> set gs"
    from Cons.IH [OF rest this Cons.prems(3,4)] show ?thesis .
  qed
qed

lemma process_config_rg_found:
  assumes "process_config w cfg = Inr cls"
    and "g \<in> set (subclasses_config cfg)" and "r \<in> set (rules g)" and "pattern r \<noteq> []"
  shows "rg w (pattern r) \<noteq> FileNotFound"
proof -
  from assms(1) obtain st where
    "process_groups w (subclasses_config cfg)
       \<lparr>subclass_points_map = [], seen_lines = {}\<rparr> = Inr st"
    by (auto simp: process_config_def split: sum.splits)
  from process_groups_rg_found [OF this assms(2,3,4)] show ?thesis .
qed

lemma process_configs_all_loaded:
  "process_configs w ss acc = Inr res \<Longrightarrow> s \<in> set ss \<Longrightarrow>
     \<exists>cfg cls. load_config s = Inr cfg \<and> process_config w cfg = Inr cls"
proof (induction ss arbitrary: acc)
  case Nil
  then show ?case by simp
next
  case (Cons s' ss)
  obtain all_data callbacks where acc: "acc = (all_data, callbacks)" by (cases acc)
  from Cons.prems(1) acc obtain cfg cls acc' where
    l: "load_config s' = Inr cfg" and p: "process_config w cfg = Inr cls" and
    rest: "process_configs w ss acc' = Inr res"
    by (auto split: sum.splits)
  from Cons.prems(2) have "s = s' \<or> s \<in> set ss" by simp
  then show ?case
  proof
    assume "s = s'"
    with l p show ?thesis by blast
  next
    assume "s \<in> set ss"
    from Cons.IH [OF rest this] show ?thesis .
  qed
qed

lemma main_runs_all_configs:
  assumes "main w inp = Inr out"
  shows "\<exists>res. process_configs w (fst (expand_config_patterns (config_args inp))) ([], [])
           = Inr res"
  using assms
  by (auto simp: main_def Let_def split: if_splits prod.splits sum.splits)

lemma main_aborts_or_loads:
  assumes "s \<in> set (fst (expand_config_patterns (config_args inp)))"
  shows "(\<exists>a. main w inp = Inl a) \<or>
         (\<exists>cfg cls. load_config s = Inr cfg \<and> process_config w cfg = Inr cls)"
proof (cases "main w inp")
  case (Inl a)
  then show ?thesis by blast
next
  case (Inr out)
  from main_runs_all_configs [OF Inr] obtain res where
    "process_configs w (fst (expand_config_patterns (config_args inp))) ([], []) = Inr res"
    by blast
  from process_configs_all_loaded [OF this assms] show ?thesis by blast
qed

lemma run_callbacks_append:
  "run_callbacks (pre @ post) result log =
     (case run_callbacks pre result log of (r1, l1) \<Rightarrow> run_callbacks post r1 l1)"
  by (induction pre result log rule: run_callbacks.induct)
     (auto split: hook_outcome.splits)

lemma run_callbacks_log: "set log \<subseteq> set (snd (run_callbacks cbs result log))"
proof (induction cbs result log rule: run_callbacks.induct)
  case (1 result log)
  show ?case by simp
next
  case (2 config_file process_fn cbs result log)
  show ?case
  proof (cases "process_fn result")
    case (Returns r)
    with "2.IH"(1) show ?thesis by simp
  next
    case (Raises e changed)
    with "2.IH"(2) show ?thesis by auto
  qed
qed

lemma process_configs_result:
  "process_configs w ss (all_data, callbacks) = Inr res \<Longrightarrow>
     res = (all_data @ source_classes w ss, callbacks @ source_hooks ss)"
proof (induction ss arbitrary: all_data callbacks)
  case Nil
  then show ?case by (simp add: source_classes_def source_hooks_def)
next
  case (Cons s ss)
  from Cons.prems obtain cfg cls where
    l: "load_config s = Inr cfg" and p: "process_config w cfg = Inr cls" and
    rest: "process_configs w ss
             (if subclasses cls \<noteq> [] then all_data @ [cls] else all_data,
              case process_json cfg of
                Some process_fn \<Rightarrow> callbacks @ [(src_path s, process_fn)]
              | None \<Rightarrow> callbacks) = Inr res"
    by (auto split: sum.splits)
  have c: "source_classes w (s # ss) =
             (if subclasses cls \<noteq> [] then [cls] else []) @ source_classes w ss"
    by (simp add: source_classes_def l p)
  have h: "source_hooks (s # ss) =
             (case process_json cfg of
                None \<Rightarrow> []
              | Some process_fn \<Rightarrow> [(src_path s, process_fn)]) @ source_hooks ss"
    by (simp add: source_hooks_def l)
  from Cons.IH [OF rest] show ?case
    by (simp add: c h split: option.splits)
qed

lemma main_output:
  assumes "main w inp = Inr out"
  shows "(written out, warnings out) =
           run_callbacks (source_hooks (fst (expand_config_patterns (config_args inp))))
             (merge_results (source_classes w (fst (expand_config_patterns (config_args inp))))
                (title inp))
             (snd (expand_config_patterns (config_args inp)))"
proof -
  obtain config_files warns where
    e: "expand_config_patterns (config_args inp) = (config_files, warns)"
    by (cases "expand_config_patterns (config_args inp)")
  from assms e obtain all_data callbacks where
    pc: "process_configs w config_files ([], []) = Inr (all_data, callbacks)" and
    out: "out = (case run_callbacks callbacks (merge_results all_data (title inp)) warns of
                   (result, log) \<Rightarrow> \<lparr>written = result, warnings = log\<rparr>)"
    by (auto simp: main_def Let_def split: if_splits sum.splits prod.splits)
  from process_configs_result [OF pc] have
    "all_data = source_classes w config_files" "callbacks = source_hooks config_files"
    by simp_all
  with out e show ?thesis by (simp split: prod.splits)
qed

lemma parse_rg_lines_events:
  "parse_rg_lines out acc =
     (if BadShape \<in> set out then None else Some (acc @ match_events out))"
  by (induction out acc rule: parse_rg_lines.induct) auto

lemma match_events_none:
  "(\<forall>n t sm. MatchEvent n t sm \<notin> set out) \<Longrightarrow> match_events out = []"
  by (induction out rule: match_events.induct) auto

lemma load_config_abort: "load_config s = Inl a \<Longrightarrow> a = Exit 1"
  by (auto simp: load_config_def split: if_splits sum.splits)

lemma process_rules_no_rg:
  "\<forall>pat. rg w pat = FileNotFound \<Longrightarrow> process_rules w sn_cfg rs st = Inl a \<Longrightarrow> a = Exit 1"
  by (induction rs arbitrary: st) (auto split: if_splits)

lemma process_groups_no_rg:
  "\<forall>pat. rg w pat = FileNotFound \<Longrightarrow> process_groups w gs st = Inl a \<Longrightarrow> a = Exit 1"
proof (induction gs arbitrary: st)
  case Nil
  then show ?case by simp
next
  case (Cons g gs)
  show ?case
  proof (cases "process_rules w (subclassname_cfg g) (rules g) st")
    case (Inl b)
    with Cons.prems process_rules_no_rg [OF Cons.prems(1) Inl] show ?thesis by simp
  next
    case (Inr st1)
    with Cons.prems have "process_groups w gs st1 = Inl a" by simp
    from Cons.IH [OF Cons.prems(1) this] show ?thesis .
  qed
qed

lemma process_configs_no_rg:
  "\<forall>pat. rg w pat = FileNotFound \<Longrightarrow> process_configs w ss acc = Inl a \<Longrightarrow> a = Exit 1"
proof (induction ss arbitrary: acc)
  case Nil
  then show ?case by simp
next
  case (Cons s ss)
  obtain all_data callbacks where acc: "acc = (all_data, callbacks)" by (cases acc)
  show ?case
  proof (cases "load_config s")
    case (Inl b)
    with Cons.prems acc load_config_abort [OF Inl] show ?thesis by simp
  next
    case l: (Inr cfg)
    show ?thesis
    proof (cases "process_config w cfg")
      case (Inl b)
      then have "process_groups w (subclasses_config cfg)
                   \<lparr>subclass_points_map = [], seen_lines = {}\<rparr> = Inl b"
        by (auto simp: process_config_def split: sum.splits)
      from process_groups_no_rg [OF Cons.prems(1) this] Inl l Cons.prems(2) acc
      show ?thesis by simp
    next
      case (Inr cls)
      with l Cons.prems(2) acc obtain acc' where "process_configs w ss acc' = Inl a"
        by auto
      from Cons.IH [OF Cons.prems(1) this] show ?thesis .
    qed
  qed
qed

lemma main_no_rg:
  assumes "\<forall>pat. rg w pat = FileNotFound" and "main w inp = Inl a"
  shows "a = Exit 1"
proof -
  obtain config_files warns where
    e: "expand_config_patterns (config_args inp) = (config_files, warns)"
    by (cases "expand_config_patterns (config_args inp)")
  show ?thesis
  proof (cases "process_configs w config_files ([], [])")
    case (Inl b)
    from process_configs_no_rg [OF assms(1) Inl] Inl assms(2) e show ?thesis
      by (auto simp: main_def Let_def split: if_splits)
  next
    case (Inr res)
    with assms(2) e show ?thesis
      by (auto simp: main_def Let_def split: if_splits prod.splits)
  qed
qed

lemma ex_run_good_result:
  "main ex_world ex_run_good = Inr \<lparr>written = ex_document, warnings = []\<rparr>"
  by code_simp

lemma ex_run_missing_result: "main ex_world ex_run_missing = Inl (Exit 1)"
  by code_simp

lemma ex_run_rg_error_result:
  "main ex_world_rg_error ex_run_good =
     Inr \<lparr>written = \<lparr>result_name = ''run'', result_all = []\<rparr>, warnings = []\<rparr>"
  by code_simp

lemma ex_run_no_rg_result: "main ex_world_no_rg ex_run_good = Inl (Exit 1)"
  by code_simp

text \<open>
  C4, as the specification states it, fails: a config file that is missing is not
  skipped. With the missing config first and a config that loads second, the run ends
  with exit status 1, although the second config alone gives a result.
\<close>

theorem missing_config_aborts_run:
  "load_config missing_source = Inl (Exit 1)
   \<and> main ex_world ex_run_missing = Inl (Exit 1)
   \<and> main ex_world ex_run_good = Inr \<lparr>written = ex_document, warnings = []\<rparr>"
  using ex_run_missing_result ex_run_good_result
  by (simp add: load_config_def missing_source_def)

text \<open>
  C4, amended. A config source that fails to load (the path does not exist, its suffix
  is not \<open>.py\<close>, or executing the module raises) is fatal: \<open>load_config\<close> exits with
  status 1, and a run that has such a source among its config files aborts and writes no
  result; no config is skipped.
\<close>

theorem config_load_failure_is_fatal:
  assumes "s \<in> set (fst (expand_config_patterns (config_args inp)))"
    and "\<not> src_exists s \<or> \<not> src_is_py s \<or> (\<exists>e. src_module s = Inl e)"
  shows "load_config s = Inl (Exit 1) \<and> (\<exists>a. main w inp = Inl a)"
proof -
  from assms(2) have l: "load_config s = Inl (Exit 1)"
    by (auto simp: load_config_def)
  with main_aborts_or_loads [OF assms(1), of w] show ?thesis by auto
qed

theorem config_load_failure_is_fatal_witness:
  "missing_source \<in> set (fst (expand_config_patterns (config_args ex_run_missing)))
   \<and> \<not> src_exists missing_source
   \<and> load_config missing_source = Inl (Exit 1)
   \<and> (\<exists>a. main ex_world ex_run_missing = Inl a)"
proof -
  have m: "missing_source \<in> set (fst (expand_config_patterns (config_args ex_run_missing)))"
    by (simp add: ex_run_missing_def)
  have e: "\<not> src_exists missing_source"
    by (simp add: missing_source_def)
  then have "\<not> src_exists missing_source \<or> \<not> src_is_py missing_source
             \<or> (\<exists>e. src_module missing_source = Inl e)"
    by simp
  from config_load_failure_is_fatal [OF m this, of ex_world] m e show ?thesis by blast
qed

text \<open>
  C7, as the specification states it, fails: the exit status of the search tool is never
  read. A tool that ends every call with status 2 and no output gives a run that
  completes and writes a result without classes.
\<close>

theorem nonzero_exit_status_not_fatal:
  "run_rg_json (Completed 2 []) = Inr []
   \<and> main ex_world_rg_error ex_run_good =
       Inr \<lparr>written = \<lparr>result_name = ''run'', result_all = []\<rparr>, warnings = []\<rparr>"
  using ex_run_rg_error_result by simp

text \<open>
  C7, amended. A search executable that is missing aborts the whole run with exit
  status 1: \<open>run_rg_json\<close> exits for the first rule with a pattern that the run reaches.
  No other failure of the invocation is fatal: another exception gives an empty match
  list, and the exit status is not read, so a call that completes gives the match events
  parsed from its output whatever its status (none when a line of the output has a shape
  that makes the parsing raise). A search that finds no match gives an empty match list,
  with no error.
\<close>

theorem only_missing_executable_is_fatal:
  assumes "s \<in> set (fst (expand_config_patterns (config_args inp)))"
    and "load_config s = Inr cfg"
    and "g \<in> set (subclasses_config cfg)" and "r \<in> set (rules g)" and "pattern r \<noteq> []"
    and "\<forall>pat. rg w pat = FileNotFound"
  shows "run_rg_json (rg w (pattern r)) = Inl (Exit 1)
       \<and> main w inp = Inl (Exit 1)
       \<and> run_rg_json (OtherFailure e) = Inr []
       \<and> run_rg_json (Completed status out) =
           Inr (if BadShape \<in> set out then [] else match_events out)
       \<and> ((\<forall>n t sm. MatchEvent n t sm \<notin> set out) \<longrightarrow>
            run_rg_json (Completed status out) = Inr [])"
proof -
  from assms(6) have nf: "rg w (pattern r) = FileNotFound" by simp
  have "\<exists>a. main w inp = Inl a"
  proof (rule ccontr)
    assume "\<not> (\<exists>a. main w inp = Inl a)"
    with main_aborts_or_loads [OF assms(1), of w] assms(2) obtain cls where
      "process_config w cfg = Inr cls"
      by auto
    from process_config_rg_found [OF this assms(3,4,5)] nf show False by simp
  qed
  then obtain a where a: "main w inp = Inl a" by blast
  from main_no_rg [OF assms(6) a] a have m: "main w inp = Inl (Exit 1)" by simp
  have c: "run_rg_json (Completed status out) =
             Inr (if BadShape \<in> set out then [] else match_events out)"
    by (simp add: parse_rg_lines_events)
  have z: "(\<forall>n t sm. MatchEvent n t sm \<notin> set out) \<longrightarrow>
             run_rg_json (Completed status out) = Inr []"
    using match_events_none [of out] unfolding c by auto
  from nf m c z show ?thesis by simp
qed

theorem only_missing_executable_is_fatal_witness:
  "good_source \<in> set (fst (expand_config_patterns (config_args ex_run_good)))
   \<and> load_config good_source = Inr ex_two_rules
   \<and> hd (subclasses_config ex_two_rules) \<in> set (subclasses_config ex_two_rules)
   \<and> hd (rules (hd (subclasses_config ex_two_rules)))
       \<in> set (rules (hd (subclasses_config ex_two_rules)))
   \<and> pattern (hd (rules (hd (subclasses_config ex_two_rules)))) \<noteq> []
   \<and> rg ex_world_no_rg ''A'' = FileNotFound
   \<and> main ex_world_no_rg ex_run_good = Inl (Exit 1)
   \<and> run_rg_json (Completed 1 [NonMatch]) = Inr []"
proof -
  have s: "good_source \<in> set (fst (expand_config_patterns (config_args ex_run_good)))"
    by (simp add: ex_run_good_def)
  have l: "load_config good_source = Inr ex_two_rules"
    by (simp add: load_config_def good_source_def)
  have g: "hd (subclasses_config ex_two_rules) \<in> set (subclasses_config ex_two_rules)"
    by (simp add: ex_two_rules_def)
  have r: "hd (rules (hd (subclasses_config ex_two_rules)))
             \<in> set (rules (hd (subclasses_config ex_two_rules)))"
    by (simp add: ex_two_rules_def)
  have p: "pattern (hd (rules (hd (subclasses_config ex_two_rules)))) \<noteq> []"
    by (simp add: ex_two_rules_def lit_rule_def)
  have f: "\<forall>pat. rg ex_world_no_rg pat = FileNotFound"
    by (simp add: ex_world_no_rg_def)
  have z: "\<forall>n t sm. MatchEvent n t sm \<notin> set [NonMatch]" by simp
  from only_missing_executable_is_fatal
         [OF s l g r p f, where status = 1 and out = "[NonMatch]"] z
  have "main ex_world_no_rg ex_run_good = Inl (Exit 1)
        \<and> run_rg_json (Completed 1 [NonMatch]) = Inr []"
    by blast
  with s l g r p f show ?thesis by blast
qed

text \<open>
  C3, as the specification states it, fails: a hook works on the result object in
  place, and what it has changed before it raises stays changed. The hook that empties
  the list of classes and then raises leaves a result without classes.
\<close>

theorem failing_hook_changes_result:
  "run_callbacks [(''a.py'', clear_then_raise)] ex_document [] =
     (\<lparr>result_name = ''run'', result_all = []\<rparr>, [ProcessJsonFailed ''a.py'' KeyError])
   \<and> result_all ex_document \<noteq> []"
  by (simp add: clear_then_raise_def ex_document_def)

text \<open>
  C3, amended. When a post-processing hook raises, the result carried forward to the
  later hooks and written as the final output is the object the hook was given, with
  whatever the hook had changed in it before raising (unchanged when the hook changed
  nothing in place); a warning naming the hook's config file is logged, and all later
  hooks still run, on that object.
\<close>

theorem failing_hook_keeps_result_object:
  assumes "main w inp = Inr out"
    and "source_hooks (fst (expand_config_patterns (config_args inp))) =
           pre @ (config_file, process_fn) # post"
    and "run_callbacks pre
           (merge_results (source_classes w (fst (expand_config_patterns (config_args inp))))
              (title inp))
           (snd (expand_config_patterns (config_args inp))) = (r1, l1)"
    and "process_fn r1 = Raises e changed"
  shows "(written out, warnings out) =
           run_callbacks post changed (l1 @ [ProcessJsonFailed config_file e])
       \<and> ProcessJsonFailed config_file e \<in> set (warnings out)
       \<and> (post = [] \<longrightarrow> written out = changed)"
proof -
  have "run_callbacks ((config_file, process_fn) # post) r1 l1 =
          run_callbacks post changed (l1 @ [ProcessJsonFailed config_file e])"
    using assms(4) by simp
  with main_output [OF assms(1)] assms(2,3)
  have o: "(written out, warnings out) =
             run_callbacks post changed (l1 @ [ProcessJsonFailed config_file e])"
    by (simp add: run_callbacks_append)
  from run_callbacks_log [of "l1 @ [ProcessJsonFailed config_file e]" post changed]
  have "ProcessJsonFailed config_file e
          \<in> set (snd (run_callbacks post changed (l1 @ [ProcessJsonFailed config_file e])))"
    by auto
  with o have l: "ProcessJsonFailed config_file e \<in> set (warnings out)"
    by (metis snd_conv)
  from o have "post = [] \<longrightarrow> written out = changed" by auto
  with o l show ?thesis by blast
qed

lemma ex_run_hooks_result:
  "main ex_world ex_run_hooks =
     Inr \<lparr>written = \<lparr>result_name = ''final'', result_all = []\<rparr>,
          warnings = [ProcessJsonFailed ''b.py'' KeyError]\<rparr>"
  by code_simp

lemma ex_run_hooks_sources:
  "source_hooks (fst (expand_config_patterns (config_args ex_run_hooks))) =
     [(''a.py'', rename_result)] @ (''b.py'', clear_then_raise) # [(''c.py'', retitle_result)]"
  by (simp add: ex_run_hooks_def source_hooks_def hook_source_def load_config_def)

lemma ex_run_hooks_classes:
  "source_classes ex_world (fst (expand_config_patterns (config_args ex_run_hooks))) =
     [ex_two_rules_class, ex_two_rules_class, ex_two_rules_class]"
proof -
  have "process_config ex_world (ex_two_rules\<lparr>process_json := Some h\<rparr>) =
          process_config ex_world ex_two_rules" for h
    by (simp add: process_config_def split: sum.splits)
  then have "process_config ex_world (ex_two_rules\<lparr>process_json := Some h\<rparr>) =
               Inr ex_two_rules_class" for h
    by (simp only: ex_two_rules_run)
  moreover have "subclasses ex_two_rules_class \<noteq> []"
    by (simp add: ex_two_rules_class_def)
  ultimately show ?thesis
    by (simp add: ex_run_hooks_def source_classes_def hook_source_def load_config_def)
qed

theorem failing_hook_keeps_result_object_witness:
  "main ex_world ex_run_hooks =
     Inr \<lparr>written = \<lparr>result_name = ''final'', result_all = []\<rparr>,
          warnings = [ProcessJsonFailed ''b.py'' KeyError]\<rparr>
   \<and> source_hooks (fst (expand_config_patterns (config_args ex_run_hooks))) =
       [(''a.py'', rename_result)] @ (''b.py'', clear_then_raise) # [(''c.py'', retitle_result)]
   \<and> run_callbacks [(''a.py'', rename_result)]
        (merge_results
           (source_classes ex_world (fst (expand_config_patterns (config_args ex_run_hooks))))
           (title ex_run_hooks))
        (snd (expand_config_patterns (config_args ex_run_hooks))) =
       (\<lparr>result_name = ''renamed'',
         result_all = [ex_two_rules_class, ex_two_rules_class, ex_two_rules_class]\<rparr>, [])
   \<and> clear_then_raise
        \<lparr>result_name = ''renamed'',
         result_all = [ex_two_rules_class, ex_two_rules_class, ex_two_rules_class]\<rparr> =
       Raises KeyError \<lparr>result_name = ''renamed'', result_all = []\<rparr>
   \<and> (\<lparr>result_name = ''final'', result_all = []\<rparr>, [ProcessJsonFailed ''b.py'' KeyError]) =
       run_callbacks [(''c.py'', retitle_result)] \<lparr>result_name = ''renamed'', result_all = []\<rparr>
         ([] @ [ProcessJsonFailed ''b.py'' KeyError])
   \<and> ProcessJsonFailed ''b.py'' KeyError
       \<in> set [ProcessJsonFailed ''b.py'' KeyError]"
proof -
  let ?r1 = "\<lparr>result_name = ''renamed'',
              result_all = [ex_two_rules_class, ex_two_rules_class, ex_two_rules_class]\<rparr>"
  have b: "run_callbacks [(''a.py'', rename_result)]
             (merge_results
                (source_classes ex_world
                   (fst (expand_config_patterns (config_args ex_run_hooks))))
                (title ex_run_hooks))
             (snd (expand_config_patterns (config_args ex_run_hooks))) = (?r1, [])"
    by (simp add: ex_run_hooks_classes merge_results_def rename_result_def)
       (simp add: ex_run_hooks_def)
  have c: "clear_then_raise ?r1 = Raises KeyError \<lparr>result_name = ''renamed'', result_all = []\<rparr>"
    by (simp add: clear_then_raise_def)
  from failing_hook_keeps_result_object [OF ex_run_hooks_result ex_run_hooks_sources b c]
    ex_run_hooks_result ex_run_hooks_sources b c
  show ?thesis by simp
qed

section \<open>The claims about the layout\<close>














end
